theory Spec2Isabelle
  imports Main
begin

section \<open>Characters and strings\<close>

text \<open>
  Source text is modelled as a HOL \<open>string\<close>, read as ASCII code points. The character
  tests below are the ASCII part of Python's \<open>str.isalnum\<close>, \<open>str.isspace\<close>,
  \<open>str.upper\<close> and of the classes \<open>\w\<close>, \<open>\s\<close>, \<open>\d\<close> of the \<open>re\<close> module:
  on a text of ASCII characters they give what Python gives. Outside ASCII Python knows
  more letters, digits and white space (U+00E9 is alphanumeric, U+00A0 is white space) and
  \<open>str.upper\<close> may change the length of a string, which the model does not follow;
  a law that is stated for every text and depends on these classes therefore assumes
  \<open>ascii_text\<close> of the text.
\<close>

definition is_ascii :: "char \<Rightarrow> bool" where
  "is_ascii c = (\<not> digit7 c)"

definition ascii_text :: "string \<Rightarrow> bool" where
  "ascii_text s = list_all is_ascii s"

definition upper_letters :: string where
  "upper_letters = ''ABCDEFGHIJKLMNOPQRSTUVWXYZ''"

definition lower_letters :: string where
  "lower_letters = ''abcdefghijklmnopqrstuvwxyz''"

definition digits :: string where
  "digits = ''0123456789''"

definition is_upper :: "char \<Rightarrow> bool" where
  "is_upper c = (c \<in> set upper_letters)"

definition is_lower :: "char \<Rightarrow> bool" where
  "is_lower c = (c \<in> set lower_letters)"

definition is_digit :: "char \<Rightarrow> bool" where
  "is_digit c = (c \<in> set digits)"

definition is_alnum :: "char \<Rightarrow> bool" where
  "is_alnum c = (is_upper c \<or> is_lower c \<or> is_digit c)"

definition is_word :: "char \<Rightarrow> bool" where
  "is_word c = (is_alnum c \<or> c = CHR ''_'')"

definition is_space :: "char \<Rightarrow> bool" where
  "is_space c = (c \<in> set [CHR '' '', CHR 0x09, CHR 0x0A, CHR 0x0B, CHR 0x0C, CHR 0x0D,
                            CHR 0x1C, CHR 0x1D, CHR 0x1E, CHR 0x1F])"

definition upper_char :: "char \<Rightarrow> char" where
  "upper_char c = (case map_of (zip lower_letters upper_letters) c of
                     None \<Rightarrow> c | Some u \<Rightarrow> u)"

definition lower_char :: "char \<Rightarrow> char" where
  "lower_char c = (case map_of (zip upper_letters lower_letters) c of
                     None \<Rightarrow> c | Some l \<Rightarrow> l)"

definition upper :: "string \<Rightarrow> string" where
  "upper s = map upper_char s"

text \<open>\<open>s.startswith(p)\<close>\<close>

fun startswith :: "string \<Rightarrow> string \<Rightarrow> bool" where
  "startswith s [] = True"
| "startswith [] (p # ps) = False"
| "startswith (c # cs) (p # ps) = (c = p \<and> startswith cs ps)"

text \<open>\<open>s.find(sub)\<close> as an option: the first index at which \<open>sub\<close> occurs.\<close>

fun find_sub :: "string \<Rightarrow> string \<Rightarrow> nat option" where
  "find_sub sub [] = (if sub = [] then Some 0 else None)"
| "find_sub sub (c # cs) =
     (if startswith (c # cs) sub then Some 0
      else map_option Suc (find_sub sub cs))"

text \<open>\<open>sub in s\<close>\<close>

definition contains :: "string \<Rightarrow> string \<Rightarrow> bool" where
  "contains sub s = (find_sub sub s \<noteq> None)"

text \<open>\<open>s.split(sep)\<close> for a one-character separator: never the empty list.\<close>

fun split_on :: "char \<Rightarrow> string \<Rightarrow> string list" where
  "split_on sep [] = [[]]"
| "split_on sep (c # cs) =
     (if c = sep then [] # split_on sep cs
      else (case split_on sep cs of
              [] \<Rightarrow> [[c]]
            | l # ls \<Rightarrow> (c # l) # ls))"

text \<open>\<open>sep.join(xs)\<close>\<close>

fun join :: "string \<Rightarrow> string list \<Rightarrow> string" where
  "join sep [] = []"
| "join sep [x] = x"
| "join sep (x # y # ys) = x @ sep @ join sep (y # ys)"

text \<open>\<open>s.strip()\<close>, \<open>s.rstrip(';')\<close> and \<open>s.split()\<close> (runs of white space separate,
  empty pieces are dropped).\<close>

definition strip :: "string \<Rightarrow> string" where
  "strip s = rev (dropWhile is_space (rev (dropWhile is_space s)))"

definition rstrip_chars :: "string \<Rightarrow> string \<Rightarrow> string" where
  "rstrip_chars cs s = rev (dropWhile (\<lambda>c. c \<in> set cs) (rev s))"

fun split_ws_acc :: "string \<Rightarrow> string \<Rightarrow> string list" where
  "split_ws_acc cur [] = (if cur = [] then [] else [rev cur])"
| "split_ws_acc cur (c # cs) =
     (if is_space c then (if cur = [] then split_ws_acc [] cs
                          else rev cur # split_ws_acc [] cs)
      else split_ws_acc (c # cur) cs)"

definition split_ws :: "string \<Rightarrow> string list" where
  "split_ws s = split_ws_acc [] s"

section \<open>Regular expressions of the \<open>re\<close> module\<close>

text \<open>
  The patterns of the source are kept as data and run by a backtracking matcher with
  the priorities of \<open>re\<close>: the left alternative first, a greedy repetition tries one
  more round before it stops, a lazy one stops before it tries one more round.
\<close>

datatype cclass =
    In "char list"        \<comment> \<open>a literal character or a class \<open>[...]\<close>, written out\<close>
  | NotIn "char list"     \<comment> \<open>\<open>[^...]\<close>\<close>
  | Space                 \<comment> \<open>\<open>\s\<close>\<close>
  | Digit                 \<comment> \<open>\<open>\d\<close>\<close>
  | Dot                   \<comment> \<open>\<open>.\<close> without DOTALL\<close>
  | DotAll                \<comment> \<open>\<open>.\<close> with DOTALL\<close>

datatype regex =
    Eps
  | Sym cclass
  | Seq regex regex
  | Alt regex regex
  | Star regex            \<comment> \<open>\<open>r*\<close>\<close>
  | LazyStar regex        \<comment> \<open>\<open>r*?\<close>\<close>
  | Group nat regex       \<comment> \<open>capturing group with its number\<close>
  | WordB                 \<comment> \<open>\<open>\b\<close>\<close>
  | Bol                   \<comment> \<open>\<open>^\<close>\<close>

definition Plus :: "regex \<Rightarrow> regex" where
  "Plus r = Seq r (Star r)"

definition Opt :: "regex \<Rightarrow> regex" where
  "Opt r = Alt r Eps"

fun Lit :: "string \<Rightarrow> regex" where
  "Lit [] = Eps"
| "Lit (c # cs) = Seq (Sym (In [c])) (Lit cs)"

fun seqs :: "regex list \<Rightarrow> regex" where
  "seqs [] = Eps"
| "seqs (r # rs) = Seq r (seqs rs)"

definition in_chars :: "bool \<Rightarrow> char list \<Rightarrow> char \<Rightarrow> bool" where
  "in_chars ic cs c =
     (c \<in> set cs \<or> (ic \<and> (upper_char c \<in> set cs \<or> lower_char c \<in> set cs)))"

fun cmatch :: "bool \<Rightarrow> cclass \<Rightarrow> char \<Rightarrow> bool" where
  "cmatch ic (In cs) c = in_chars ic cs c"
| "cmatch ic (NotIn cs) c = (\<not> in_chars ic cs c)"
| "cmatch ic Space c = is_space c"
| "cmatch ic Digit c = is_digit c"
| "cmatch ic Dot c = (c \<noteq> CHR 0x0A)"
| "cmatch ic DotAll c = True"

text \<open>
  The matcher's state: the character before the current position (\<open>None\<close> at the start
  of the text), the text still to read, and the groups captured so far, the latest first.
\<close>

record mstate =
  prev :: "char option"
  rest :: string
  caps :: "(nat \<times> string) list"

definition is_word_opt :: "char option \<Rightarrow> bool" where
  "is_word_opt c = (case c of None \<Rightarrow> False | Some x \<Rightarrow> is_word x)"

definition at_boundary :: "mstate \<Rightarrow> bool" where
  "at_boundary s =
     (is_word_opt (prev s) \<noteq> is_word_opt (case rest s of [] \<Rightarrow> None | c # _ \<Rightarrow> Some c))"

text \<open>
  A repetition runs at most once per character left: a round that reads nothing ends it,
  as in \<open>re\<close>.
\<close>

fun greedy :: "((mstate \<Rightarrow> 'a option) \<Rightarrow> mstate \<Rightarrow> 'a option) \<Rightarrow> nat \<Rightarrow>
               (mstate \<Rightarrow> 'a option) \<Rightarrow> mstate \<Rightarrow> 'a option" where
  "greedy f 0 k s = k s"
| "greedy f (Suc n) k s =
     (case f (\<lambda>s'. if length (rest s') < length (rest s) then greedy f n k s' else None) s of
        Some x \<Rightarrow> Some x
      | None \<Rightarrow> k s)"

fun lazy :: "((mstate \<Rightarrow> 'a option) \<Rightarrow> mstate \<Rightarrow> 'a option) \<Rightarrow> nat \<Rightarrow>
             (mstate \<Rightarrow> 'a option) \<Rightarrow> mstate \<Rightarrow> 'a option" where
  "lazy f 0 k s = k s"
| "lazy f (Suc n) k s =
     (case k s of
        Some x \<Rightarrow> Some x
      | None \<Rightarrow> f (\<lambda>s'. if length (rest s') < length (rest s) then lazy f n k s' else None) s)"

primrec mt :: "bool \<Rightarrow> regex \<Rightarrow> (mstate \<Rightarrow> 'a option) \<Rightarrow> mstate \<Rightarrow> 'a option" where
  "mt ic Eps k s = k s"
| "mt ic (Sym cl) k s =
     (case rest s of
        [] \<Rightarrow> None
      | c # cs \<Rightarrow> if cmatch ic cl c then k (s\<lparr>prev := Some c, rest := cs\<rparr>) else None)"
| "mt ic (Seq a b) k s = mt ic a (mt ic b k) s"
| "mt ic (Alt a b) k s = (case mt ic a k s of Some x \<Rightarrow> Some x | None \<Rightarrow> mt ic b k s)"
| "mt ic (Star r) k s = greedy (mt ic r) (length (rest s)) k s"
| "mt ic (LazyStar r) k s = lazy (mt ic r) (length (rest s)) k s"
| "mt ic (Group n r) k s =
     mt ic r (\<lambda>s'. k (s'\<lparr>caps := (n, take (length (rest s) - length (rest s')) (rest s))
                                    # caps s'\<rparr>)) s"
| "mt ic WordB k s = (if at_boundary s then k s else None)"
| "mt ic Bol k s = (if prev s = None then k s else None)"

text \<open>\<open>re.match(pattern, text)\<close>: a match at the start of the text, or \<open>None\<close>.\<close>

definition re_match :: "bool \<Rightarrow> regex \<Rightarrow> string \<Rightarrow> mstate option" where
  "re_match ic r s = mt ic r Some \<lparr>prev = None, rest = s, caps = []\<rparr>"

text \<open>\<open>m.group(n)\<close>: \<open>None\<close> when the group took no part in the match.\<close>

definition group :: "mstate \<Rightarrow> nat \<Rightarrow> string option" where
  "group m n = map_of (caps m) n"


text \<open>
  \<open>re.sub(pattern, '', text)\<close>: the matches are found from left to right, none
  overlapping, and dropped. The patterns given to it here read at least one character.
\<close>

fun re_sub_empty :: "bool \<Rightarrow> regex \<Rightarrow> char option \<Rightarrow> string \<Rightarrow> string" where
  "re_sub_empty ic r p [] = []"
| "re_sub_empty ic r p (c # cs) =
     (case mt ic r Some \<lparr>prev = p, rest = c # cs, caps = []\<rparr> of
        None \<Rightarrow> c # re_sub_empty ic r (Some c) cs
      | Some m \<Rightarrow>
          if length (rest m) < length (c # cs)
          then re_sub_empty ic r (prev m) (drop (length (c # cs) - length (rest m)) (c # cs))
          else c # re_sub_empty ic r (Some c) cs)"

text \<open>
  \<open>pattern.finditer(text)\<close>: the spans \<open>(start, end)\<close> of the matches, from left to
  right, none overlapping; \<open>i\<close> is the offset of the text still to scan.
\<close>

fun finditer_from :: "bool \<Rightarrow> regex \<Rightarrow> nat \<Rightarrow> char option \<Rightarrow> string \<Rightarrow> (nat \<times> nat) list" where
  "finditer_from ic r i p [] = []"
| "finditer_from ic r i p (c # cs) =
     (case mt ic r Some \<lparr>prev = p, rest = c # cs, caps = []\<rparr> of
        None \<Rightarrow> finditer_from ic r (Suc i) (Some c) cs
      | Some m \<Rightarrow>
          if length (rest m) < length (c # cs)
          then (i, i + (length (c # cs) - length (rest m)))
               # finditer_from ic r (i + (length (c # cs) - length (rest m))) (prev m)
                   (drop (length (c # cs) - length (rest m)) (c # cs))
          else finditer_from ic r (Suc i) (Some c) cs)"

definition finditer :: "bool \<Rightarrow> regex \<Rightarrow> string \<Rightarrow> (nat \<times> nat) list" where
  "finditer ic r s = finditer_from ic r 0 None s"

section \<open>Lexical cleanup: \<open>ChillParser._preprocess\<close>\<close>

abbreviation nl :: char where
  "nl \<equiv> CHR 0x0A"

text \<open>The pattern \<open>/\*.*?\*/\<close> with DOTALL.\<close>

definition block_comment_re :: regex where
  "block_comment_re = seqs [Lit ''/*'', LazyStar (Sym DotAll), Lit ''*/'']"

text \<open>\<open>if '--' in line: line = line[:line.index('--')]\<close>\<close>

definition strip_line_comment :: "string \<Rightarrow> string" where
  "strip_line_comment line =
     (case find_sub ''--'' line of None \<Rightarrow> line | Some i \<Rightarrow> take i line)"

definition preprocess :: "string \<Rightarrow> string" where
  "preprocess source =
     join [nl] (map strip_line_comment
                  (split_on nl (re_sub_empty False block_comment_re None source)))"

definition line_count :: "string \<Rightarrow> nat" where
  "line_count s = length (split_on nl s)"


section \<open>The data model\<close>

text \<open>\<open>ChillMode\<close>, with the value of each member.\<close>

datatype ChillMode =
    M_INT | M_BOOL | M_CHAR | M_CHARS | M_BOOLS | M_SET | M_RANGE | M_POWERSET | M_REF
  | M_STRUCT | M_ARRAY | M_PROC | M_PROCESS | M_BUFFER | M_EVENT | M_SIGNAL
  | M_ASSOCIATION | M_ACCESS | M_TEXT | M_DURATION | M_TIME | M_USER_DEFINED | M_UNKNOWN

fun mode_value :: "ChillMode \<Rightarrow> string" where
  "mode_value M_INT = ''INT''"
| "mode_value M_BOOL = ''BOOL''"
| "mode_value M_CHAR = ''CHAR''"
| "mode_value M_CHARS = ''CHARS''"
| "mode_value M_BOOLS = ''BOOLS''"
| "mode_value M_SET = ''SET''"
| "mode_value M_RANGE = ''RANGE''"
| "mode_value M_POWERSET = ''POWERSET''"
| "mode_value M_REF = ''REF''"
| "mode_value M_STRUCT = ''STRUCT''"
| "mode_value M_ARRAY = ''ARRAY''"
| "mode_value M_PROC = ''PROC''"
| "mode_value M_PROCESS = ''PROCESS''"
| "mode_value M_BUFFER = ''BUFFER''"
| "mode_value M_EVENT = ''EVENT''"
| "mode_value M_SIGNAL = ''SIGNAL''"
| "mode_value M_ASSOCIATION = ''ASSOCIATION''"
| "mode_value M_ACCESS = ''ACCESS''"
| "mode_value M_TEXT = ''TEXT''"
| "mode_value M_DURATION = ''DURATION''"
| "mode_value M_TIME = ''TIME''"
| "mode_value M_USER_DEFINED = ''USER''"
| "mode_value M_UNKNOWN = ''UNKNOWN''"

definition CHILL_RESERVED_WORDS :: "string list" where
  "CHILL_RESERVED_WORDS =
    [''ABSTRACT'', ''ACCESS'', ''AFTER'', ''ALL'', ''AND'', ''ANDIF'', ''ANY'',
     ''ARRAY'', ''ASSERT'', ''AT'', ''BASED_ON'', ''BEGIN'', ''BIN'', ''BODY'',
     ''BOOLS'', ''BUFFER'', ''BY'', ''CASE'', ''CAUSE'', ''CHARS'', ''CONTEXT'',
     ''CONTINUE'', ''CYCLE'', ''DCL'', ''DELAY'', ''DO'', ''DOWN'', ''DYNAMIC'',
     ''ELSE'', ''ELSIF'', ''END'', ''ESAC'', ''EVENT'', ''EVER'', ''EXCEPTIONS'',
     ''EXIT'', ''FI'', ''FINAL'', ''FOR'', ''FORBID'', ''GENERAL'', ''GENERIC'',
     ''GOTO'', ''GRANT'', ''IF'', ''IMPLEMENTS'', ''IN'', ''INCOMPLETE'', ''INIT'',
     ''INLINE'', ''INOUT'', ''INTERFACE'', ''INVARIANT'', ''LOC'', ''MOD'',
     ''MODE'', ''MODULE'', ''NEW'', ''NEWMODE'', ''NONREF'', ''NOPACK'', ''NOT'',
     ''OD'', ''OF'', ''ON'', ''OR'', ''ORIF'', ''OUT'', ''PACK'', ''POS'', ''POST'',
     ''POWERSET'', ''PRE'', ''PREFIXED'', ''PRIORITY'', ''PROC'', ''PROCESS'',
     ''RANGE'', ''READ'', ''RECEIVE'', ''REF'', ''REGION'', ''REM'', ''REMOTE'',
     ''RESULT'', ''RETURN'', ''RETURNS'', ''ROW'', ''SEIZE'', ''SELF'', ''SEND'',
     ''SET'', ''SIGNAL'', ''SIMPLE'', ''SPEC'', ''START'', ''STATIC'', ''STEP'',
     ''STOP'', ''STRUCT'', ''SYN'', ''SYNMODE'', ''TASK'', ''TEXT'', ''THEN'',
     ''THIS'', ''TIMEOUT'', ''TO'', ''UP'', ''VARYING'', ''WCHARS'', ''WHILE'',
     ''WITH'', ''WTEXT'', ''XOR'', ''NOT_ASSIGNABLE'', ''ANY_ASSIGN'',
     ''ANY_DISCRETE'', ''ANY_INT'', ''ANY_REAL'', ''ASSIGNABLE'', ''CONSTR'',
     ''DESTR'', ''REIMPLEMENT'']"

definition CHILL_PREDEFINED :: "string list" where
  "CHILL_PREDEFINED =
    [''ABS'', ''ABSTIME'', ''ALLOCATE'', ''ARCCOS'', ''ARCSIN'', ''ARCTAN'',
     ''ASSOCIATE'', ''CARD'', ''CONNECT'', ''COS'', ''CREATE'', ''DELETE'',
     ''DISCONNECT'', ''DISSOCIATE'', ''EOLN'', ''EXISTING'', ''EXP'', ''EXPIRED'',
     ''FIRST'', ''FLOAT'', ''GETASSOCIATION'', ''GETSTACK'', ''GETTEXTACCESS'',
     ''GETTEXTINDEX'', ''GETTEXTRECORD'', ''GETUSAGE'', ''INDEXABLE'',
     ''INTTIME'', ''ISASSOCIATED'', ''LAST'', ''LENGTH'', ''LN'', ''LOG'', ''LOWER'',
     ''MAX'', ''MIN'', ''MODIFY'', ''NUM'', ''OUTOFFILE'', ''PRED'', ''PTR'',
     ''READABLE'', ''READONLY'', ''READRECORD'', ''READTEXT'', ''READWRITE'',
     ''SAME'', ''SEQUENCIBLE'', ''SETTEXTACCESS'', ''SETTEXTINDEX'',
     ''SETTEXTRECORD'', ''SIN'', ''SIZE'', ''SQRT'', ''SUCC'', ''TAN'', ''TERMINATE'',
     ''UPPER'', ''USAGE'', ''VARIABLE'', ''WAIT'', ''WCHAR'', ''WHERE'',
     ''WRITEABLE'', ''WRITEONLY'', ''WRITERECORD'', ''WRITETEXT'',
     ''INT'', ''BOOL'', ''CHAR'', ''DURATION'', ''TIME'', ''ASSOCIATION'', ''INSTANCE'',
     ''BYTE'', ''UBYTE'', ''UINT'', ''LONG'', ''ULONG'', ''REAL'', ''LONG_REAL'',
     ''TRUE'', ''FALSE'', ''NULL'',
     ''DAYS'', ''HOURS'', ''MILLISECS'', ''MINUTES'', ''SECS'',
     ''SECONDS'', ''MICROSECS'']"

text \<open>
  The dataclasses. Field names carry the entity's prefix, since a record's fields share
  one name space. Line numbers and columns are Python integers.
\<close>

record DclDefinition =
  dcl_name :: string
  dcl_mode :: ChillMode
  dcl_mode_name :: "string option"
  dcl_size :: "int option"
  dcl_dimensions :: "(int \<times> int) list"
  dcl_initial_value :: "string option"
  dcl_is_static :: bool
  dcl_is_dynamic :: bool
  dcl_is_loc :: bool
  dcl_is_read :: bool
  dcl_line_number :: int
  dcl_column_start :: int
  dcl_column_end :: int
  dcl_parent_scope :: "string option"

record NewmodeDefinition =
  nm_name :: string
  nm_base_mode :: ChillMode
  nm_base_mode_name :: "string option"
  nm_fields :: "(string \<times> DclDefinition) list"
  nm_enum_values :: "string list"
  nm_range_low :: "int option"
  nm_range_high :: "int option"
  nm_element_mode :: "string option"
  nm_dimensions :: "(int \<times> int) list"
  nm_ref_mode :: "string option"
  nm_is_packed :: bool
  nm_line_number :: int
  nm_column_start :: int
  nm_column_end :: int

record SynDefinition =
  syn_name :: string
  syn_value :: string
  syn_mode :: "string option"
  syn_line_number :: int

record ProcDefinition =
  proc_name :: string
  proc_parameters :: "(string \<times> string \<times> string) list"
  proc_returns_mode :: "string option"
  proc_is_general :: bool
  proc_is_inline :: bool
  proc_is_recursive :: bool
  proc_exceptions :: "string list"
  proc_local_dcls :: "(string \<times> DclDefinition) list"
  proc_local_modes :: "(string \<times> NewmodeDefinition) list"
  proc_line_start :: int
  proc_line_end :: int
  proc_body_start :: int

record ProcessDefinition =
  process_name :: string
  process_parameters :: "(string \<times> string \<times> string) list"
  process_priority :: "int option"
  process_local_dcls :: "(string \<times> DclDefinition) list"
  process_local_modes :: "(string \<times> NewmodeDefinition) list"
  process_line_start :: int
  process_line_end :: int

record ModuleDefinition =
  mod_name :: string
  mod_is_spec :: bool
  mod_is_body :: bool
  mod_grants :: "string list"
  mod_seizes :: "string list"
  mod_line_start :: int
  mod_line_end :: int

record SignalDefinition =
  sig_name :: string
  sig_parameters :: "(string \<times> string) list"
  sig_line_number :: int

text \<open>
  A Python dictionary keeps its keys in the order of their first insertion; storing under
  a key that is there replaces the value in place. It is an association list with
  distinct keys.
\<close>

fun dict_set :: "'k \<Rightarrow> 'v \<Rightarrow> ('k \<times> 'v) list \<Rightarrow> ('k \<times> 'v) list" where
  "dict_set k v [] = [(k, v)]"
| "dict_set k v (p # ps) = (if fst p = k then (k, v) # ps else p # dict_set k v ps)"

definition dict_get :: "('k \<times> 'v) list \<Rightarrow> 'k \<Rightarrow> 'v option" where
  "dict_get d k = map_of d k"

definition dict_keys :: "('k \<times> 'v) list \<Rightarrow> 'k list" where
  "dict_keys d = map fst d"

record ChillSemanticModel =
  dcls :: "(string \<times> DclDefinition) list"
  modes :: "(string \<times> NewmodeDefinition) list"
  synonyms :: "(string \<times> SynDefinition) list"
  procs :: "(string \<times> ProcDefinition) list"
  processes :: "(string \<times> ProcessDefinition) list"
  modules :: "(string \<times> ModuleDefinition) list"
  signals :: "(string \<times> SignalDefinition) list"
  regions :: "(string \<times> unit) list"
  current_scope :: string
  scope_stack :: "string list"
  "module_name" :: "string option"

text \<open>\<open>ChillSemanticModel.__init__\<close>\<close>

definition new_model :: ChillSemanticModel where
  "new_model = \<lparr>dcls = [], modes = [], synonyms = [], procs = [], processes = [],
                modules = [], signals = [], regions = [], current_scope = ''GLOBAL'',
                scope_stack = [], module_name = None\<rparr>"

definition add_dcl :: "DclDefinition \<Rightarrow> ChillSemanticModel \<Rightarrow> ChillSemanticModel" where
  "add_dcl dcl m =
     (let dcl' = dcl\<lparr>dcl_parent_scope := Some (current_scope m)\<rparr>;
          key = (if current_scope m \<noteq> ''GLOBAL''
                 then current_scope m @ ''.'' @ dcl_name dcl' else dcl_name dcl')
      in m\<lparr>dcls := dict_set key dcl' (dict_set (dcl_name dcl') dcl' (dcls m))\<rparr>)"

definition get_dcl :: "ChillSemanticModel \<Rightarrow> string \<Rightarrow> DclDefinition option" where
  "get_dcl m name =
     (case dict_get (dcls m) (current_scope m @ ''.'' @ name) of
        Some d \<Rightarrow> Some d
      | None \<Rightarrow> dict_get (dcls m) name)"

definition add_mode :: "NewmodeDefinition \<Rightarrow> ChillSemanticModel \<Rightarrow> ChillSemanticModel" where
  "add_mode mode m = m\<lparr>modes := dict_set (nm_name mode) mode (modes m)\<rparr>"

definition get_mode :: "ChillSemanticModel \<Rightarrow> string \<Rightarrow> NewmodeDefinition option" where
  "get_mode m name = dict_get (modes m) name"

definition add_proc :: "ProcDefinition \<Rightarrow> ChillSemanticModel \<Rightarrow> ChillSemanticModel" where
  "add_proc proc m = m\<lparr>procs := dict_set (proc_name proc) proc (procs m)\<rparr>"

definition get_proc :: "ChillSemanticModel \<Rightarrow> string \<Rightarrow> ProcDefinition option" where
  "get_proc m name = dict_get (procs m) name"

definition add_process :: "ProcessDefinition \<Rightarrow> ChillSemanticModel \<Rightarrow> ChillSemanticModel" where
  "add_process process m =
     m\<lparr>processes := dict_set (process_name process) process (processes m)\<rparr>"

definition add_module :: "ModuleDefinition \<Rightarrow> ChillSemanticModel \<Rightarrow> ChillSemanticModel" where
  "add_module module m = m\<lparr>modules := dict_set (mod_name module) module (modules m)\<rparr>"

definition add_synonym :: "SynDefinition \<Rightarrow> ChillSemanticModel \<Rightarrow> ChillSemanticModel" where
  "add_synonym syn m = m\<lparr>synonyms := dict_set (syn_name syn) syn (synonyms m)\<rparr>"

definition add_signal :: "SignalDefinition \<Rightarrow> ChillSemanticModel \<Rightarrow> ChillSemanticModel" where
  "add_signal sg m = m\<lparr>signals := dict_set (sig_name sg) sg (signals m)\<rparr>"

definition push_scope :: "string \<Rightarrow> ChillSemanticModel \<Rightarrow> ChillSemanticModel" where
  "push_scope name m =
     m\<lparr>scope_stack := scope_stack m @ [current_scope m], current_scope := name\<rparr>"

definition pop_scope :: "ChillSemanticModel \<Rightarrow> ChillSemanticModel" where
  "pop_scope m =
     (if scope_stack m \<noteq> []
      then m\<lparr>current_scope := last (scope_stack m), scope_stack := butlast (scope_stack m)\<rparr>
      else m)"



section \<open>The declaration scanner: \<open>ChillParser\<close>\<close>

text \<open>
  The exceptions a parse can raise. A group outside every optional part of its pattern
  takes part in each match; \<open>group_req\<close> reads such a group, and a string method called
  on a missing one would raise \<open>AttributeError\<close>.
\<close>

datatype error = IndexError | ValueError | AttributeError

definition bind :: "error + 'a \<Rightarrow> ('a \<Rightarrow> error + 'b) \<Rightarrow> error + 'b" where
  "bind x f = (case x of Inl e \<Rightarrow> Inl e | Inr v \<Rightarrow> f v)"

definition group_req :: "mstate \<Rightarrow> nat \<Rightarrow> error + string" where
  "group_req mo n = (case group mo n of None \<Rightarrow> Inl AttributeError | Some g \<Rightarrow> Inr g)"

text \<open>\<open>[A-Z_][A-Z0-9_]*\<close>, \<open>\s*\<close> and \<open>\s+\<close>.\<close>

definition ident :: regex where
  "ident = Seq (Sym (In (upper_letters @ ''_''))) (Star (Sym (In (upper_letters @ digits @ ''_''))))"

definition ws0 :: regex where
  "ws0 = Star (Sym Space)"

definition ws1 :: regex where
  "ws1 = Plus (Sym Space)"

subsection \<open>Mode names\<close>

definition mode_map :: "(string \<times> ChillMode) list" where
  "mode_map =
    [(''INT'', M_INT), (''BOOL'', M_BOOL), (''CHAR'', M_CHAR), (''CHARS'', M_CHARS),
     (''BOOLS'', M_BOOLS), (''SET'', M_SET), (''RANGE'', M_RANGE), (''POWERSET'', M_POWERSET),
     (''REF'', M_REF), (''STRUCT'', M_STRUCT), (''ARRAY'', M_ARRAY), (''PROC'', M_PROC),
     (''PROCESS'', M_PROCESS), (''BUFFER'', M_BUFFER), (''EVENT'', M_EVENT),
     (''SIGNAL'', M_SIGNAL), (''ASSOCIATION'', M_ASSOCIATION), (''ACCESS'', M_ACCESS),
     (''TEXT'', M_TEXT), (''DURATION'', M_DURATION), (''TIME'', M_TIME),
     (''BYTE'', M_INT), (''UBYTE'', M_INT), (''UINT'', M_INT), (''LONG'', M_INT),
     (''ULONG'', M_INT), (''REAL'', M_INT), (''LONG_REAL'', M_INT)]"

definition mode_map_get :: "string \<Rightarrow> ChillMode" where
  "mode_map_get k = (case map_of mode_map k of None \<Rightarrow> M_USER_DEFINED | Some v \<Rightarrow> v)"

text \<open>\<open>mode_str.upper().strip().split()[0] if mode_str else 'UNKNOWN'\<close>, then the table.\<close>

definition mode_str_to_enum :: "string \<Rightarrow> error + ChillMode" where
  "mode_str_to_enum mode_str =
     (if mode_str = [] then Inr (mode_map_get ''UNKNOWN'')
      else (case split_ws (strip (upper mode_str)) of
              [] \<Rightarrow> Inl IndexError
            | t # ts \<Rightarrow> Inr (mode_map_get t)))"

definition builtin_modes :: "string list" where
  "builtin_modes =
    [''INT'', ''BOOL'', ''CHAR'', ''CHARS'', ''BOOLS'', ''BYTE'', ''UBYTE'',
     ''UINT'', ''LONG'', ''ULONG'', ''REAL'', ''LONG_REAL'', ''DURATION'',
     ''TIME'', ''ASSOCIATION'', ''INSTANCE'']"

text \<open>\<open>mode_str.upper().split()[0] in {...}\<close>\<close>

definition is_builtin_mode :: "string \<Rightarrow> error + bool" where
  "is_builtin_mode mode_str =
     (case split_ws (upper mode_str) of
        [] \<Rightarrow> Inl IndexError
      | t # ts \<Rightarrow> Inr (t \<in> set builtin_modes))"

definition infer_base_mode :: "string \<Rightarrow> error + ChillMode" where
  "infer_base_mode mode_str =
     (if startswith (strip (upper mode_str)) ''SET'' then Inr M_SET
      else if startswith (strip (upper mode_str)) ''RANGE'' then Inr M_RANGE
      else if startswith (strip (upper mode_str)) ''STRUCT'' then Inr M_STRUCT
      else if startswith (strip (upper mode_str)) ''ARRAY'' then Inr M_ARRAY
      else if startswith (strip (upper mode_str)) ''REF'' then Inr M_REF
      else if startswith (strip (upper mode_str)) ''POWERSET'' then Inr M_POWERSET
      else if startswith (strip (upper mode_str)) ''CHARS'' then Inr M_CHARS
      else if startswith (strip (upper mode_str)) ''BOOLS'' then Inr M_BOOLS
      else if startswith (strip (upper mode_str)) ''PROC'' then Inr M_PROC
      else if startswith (strip (upper mode_str)) ''BUFFER'' then Inr M_BUFFER
      else if startswith (strip (upper mode_str)) ''EVENT'' then Inr M_EVENT
      else if startswith (strip (upper mode_str)) ''SIGNAL'' then Inr M_SIGNAL
      else mode_str_to_enum (strip (upper mode_str)))"

subsection \<open>Entities with their default fields\<close>

definition new_dcl :: "string \<Rightarrow> ChillMode \<Rightarrow> DclDefinition" where
  "new_dcl name mode =
     \<lparr>dcl_name = name, dcl_mode = mode, dcl_mode_name = None, dcl_size = None,
      dcl_dimensions = [], dcl_initial_value = None, dcl_is_static = False,
      dcl_is_dynamic = False, dcl_is_loc = False, dcl_is_read = False, dcl_line_number = 0,
      dcl_column_start = 0, dcl_column_end = 0, dcl_parent_scope = None\<rparr>"

definition new_newmode :: "string \<Rightarrow> ChillMode \<Rightarrow> int \<Rightarrow> NewmodeDefinition" where
  "new_newmode name base line_num =
     \<lparr>nm_name = name, nm_base_mode = base, nm_base_mode_name = None, nm_fields = [],
      nm_enum_values = [], nm_range_low = None, nm_range_high = None,
      nm_element_mode = None, nm_dimensions = [], nm_ref_mode = None, nm_is_packed = False,
      nm_line_number = line_num, nm_column_start = 0, nm_column_end = 0\<rparr>"

subsection \<open>\<open>_parse_module\<close>\<close>

text \<open>\<open>MODULE\s+([A-Z_][A-Z0-9_]*)\<close>\<close>

definition module_re :: regex where
  "module_re = seqs [Lit ''MODULE'', ws1, Group 1 ident]"

definition parse_module :: "string \<Rightarrow> int \<Rightarrow> ChillSemanticModel \<Rightarrow> error + ChillSemanticModel" where
  "parse_module line line_num m =
     (case re_match True module_re line of
        None \<Rightarrow> Inr m
      | Some mo \<Rightarrow>
          bind (group_req mo 1) (\<lambda>name.
            Inr (push_scope name
                  ((add_module \<lparr>mod_name = name, mod_is_spec = contains ''SPEC'' (upper line),
                                mod_is_body = False, mod_grants = [], mod_seizes = [],
                                mod_line_start = line_num, mod_line_end = 0\<rparr> m)
                     \<lparr>module_name := Some name\<rparr>))))"

subsection \<open>\<open>_parse_newmode\<close> and \<open>_parse_struct_fields\<close>\<close>

text \<open>\<open>int(s)\<close> on an optional minus sign and decimal digits.\<close>

definition digit_val :: "char \<Rightarrow> int" where
  "digit_val c = int (length (takeWhile (\<lambda>d. d \<noteq> c) digits))"

fun int_of_digits :: "string \<Rightarrow> int \<Rightarrow> int" where
  "int_of_digits [] acc = acc"
| "int_of_digits (c # cs) acc = int_of_digits cs (10 * acc + digit_val c)"

definition py_int :: "string \<Rightarrow> error + int" where
  "py_int s =
     (case s of
        [] \<Rightarrow> Inl ValueError
      | c # cs \<Rightarrow>
          if c = CHR ''-'' \<and> cs \<noteq> [] \<and> list_all is_digit cs then Inr (- int_of_digits cs 0)
          else if list_all is_digit (c # cs) then Inr (int_of_digits (c # cs) 0)
          else Inl ValueError)"

text \<open>
  \<open>(?:NEWMODE|SYNMODE)\s+([A-Z_][A-Z0-9_]*)\s*=\s*(.+)\<close>, \<open>SET\s*\(([^)]+)\)\<close>,
  \<open>RANGE\s*\(\s*(-?\d+)\s*:\s*(-?\d+)\s*\)\<close> and \<open>STRUCT\s*\((.+)\)\<close> with DOTALL.
\<close>

definition newmode_re :: regex where
  "newmode_re = seqs [Alt (Lit ''NEWMODE'') (Lit ''SYNMODE''), ws1, Group 1 ident, ws0,
                      Lit ''='', ws0, Group 2 (Plus (Sym Dot))]"

definition set_re :: regex where
  "set_re = seqs [Lit ''SET'', ws0, Lit ''('', Group 1 (Plus (Sym (NotIn '')''))), Lit '')'']"

definition range_re :: regex where
  "range_re = seqs [Lit ''RANGE'', ws0, Lit ''('', ws0,
                    Group 1 (Seq (Opt (Lit ''-'')) (Plus (Sym Digit))), ws0, Lit '':'', ws0,
                    Group 2 (Seq (Opt (Lit ''-'')) (Plus (Sym Digit))), ws0, Lit '')'']"

definition struct_re :: regex where
  "struct_re = seqs [Lit ''STRUCT'', ws0, Lit ''('', Group 1 (Plus (Sym DotAll)), Lit '')'']"

fun parse_struct_fields ::
  "string list \<Rightarrow> (string \<times> DclDefinition) list \<Rightarrow> error + (string \<times> DclDefinition) list" where
  "parse_struct_fields [] fs = Inr fs"
| "parse_struct_fields (f # others) fs =
     (if 2 \<le> length (split_ws (strip f))
      then bind (mode_str_to_enum (last (split_ws (strip f)))) (\<lambda>md.
             parse_struct_fields others
               (dict_set (hd (split_ws (strip f))) (new_dcl (hd (split_ws (strip f))) md) fs))
      else parse_struct_fields others fs)"

definition set_values :: "string \<Rightarrow> NewmodeDefinition \<Rightarrow> NewmodeDefinition" where
  "set_values mode_def mode =
     (case re_match True set_re mode_def of
        None \<Rightarrow> mode
      | Some sm \<Rightarrow>
          (case group sm 1 of
             None \<Rightarrow> mode
           | Some g \<Rightarrow> mode\<lparr>nm_enum_values := map strip (split_on CHR '','' g)\<rparr>))"

definition range_bounds :: "string \<Rightarrow> NewmodeDefinition \<Rightarrow> error + NewmodeDefinition" where
  "range_bounds mode_def mode =
     (case re_match True range_re mode_def of
        None \<Rightarrow> Inr mode
      | Some rm \<Rightarrow>
          bind (group_req rm 1) (\<lambda>g1. bind (py_int g1) (\<lambda>lo.
          bind (group_req rm 2) (\<lambda>g2. bind (py_int g2) (\<lambda>hi.
            Inr (mode\<lparr>nm_range_low := Some lo, nm_range_high := Some hi\<rparr>))))))"

definition struct_fields :: "string \<Rightarrow> NewmodeDefinition \<Rightarrow> error + NewmodeDefinition" where
  "struct_fields mode_def mode =
     (case re_match True struct_re mode_def of
        None \<Rightarrow> Inr mode
      | Some sm \<Rightarrow>
          bind (group_req sm 1) (\<lambda>g.
          bind (parse_struct_fields (split_on CHR '','' g) (nm_fields mode)) (\<lambda>fs.
            Inr (mode\<lparr>nm_fields := fs\<rparr>))))"

definition parse_newmode :: "string \<Rightarrow> int \<Rightarrow> ChillSemanticModel \<Rightarrow> error + ChillSemanticModel" where
  "parse_newmode line line_num m =
     (case re_match True newmode_re line of
        None \<Rightarrow> Inr m
      | Some mo \<Rightarrow>
          bind (group_req mo 1) (\<lambda>name.
          bind (group_req mo 2) (\<lambda>g2.
          bind (infer_base_mode (strip (rstrip_chars '';'' g2))) (\<lambda>base.
          bind (range_bounds (strip (rstrip_chars '';'' g2))
                  (set_values (strip (rstrip_chars '';'' g2)) (new_newmode name base line_num)))
            (\<lambda>mode2.
          bind (struct_fields (strip (rstrip_chars '';'' g2)) mode2) (\<lambda>mode3.
            Inr (add_mode mode3 m)))))))"

subsection \<open>\<open>_parse_dcl\<close>\<close>

text \<open>\<open>DCL\s+([A-Z_][A-Z0-9_]*)\s+([^:;]+)(?:\s*:=\s*([^;]+))?\s*;?\<close>\<close>

definition dcl_re :: regex where
  "dcl_re = seqs [Lit ''DCL'', ws1, Group 1 ident, ws1, Group 2 (Plus (Sym (NotIn '':;''))),
                  Opt (seqs [ws0, Lit '':='', ws0, Group 3 (Plus (Sym (NotIn '';'')))]),
                  ws0, Opt (Lit '';'')]"

text \<open>\<open>s.find(sub)\<close> as Python's integer, \<open>-1\<close> when there is no occurrence.\<close>

definition py_find :: "string \<Rightarrow> string \<Rightarrow> int" where
  "py_find s sub = (case find_sub sub s of None \<Rightarrow> - 1 | Some i \<Rightarrow> int i)"

text \<open>\<open>g.strip() if g else None\<close> on a group that may be missing.\<close>

definition strip_if :: "string option \<Rightarrow> string option" where
  "strip_if g = (case g of None \<Rightarrow> None | Some t \<Rightarrow> if t = [] then None else Some (strip t))"

definition parse_dcl :: "string \<Rightarrow> int \<Rightarrow> ChillSemanticModel \<Rightarrow> error + ChillSemanticModel" where
  "parse_dcl line line_num m =
     (case re_match True dcl_re line of
        None \<Rightarrow> Inr m
      | Some mo \<Rightarrow>
          bind (group_req mo 1) (\<lambda>name.
          bind (group_req mo 2) (\<lambda>g2.
          bind (mode_str_to_enum (strip g2)) (\<lambda>mode.
          bind (is_builtin_mode (strip g2)) (\<lambda>builtin.
            Inr (add_dcl
                  ((new_dcl name mode)
                     \<lparr>dcl_mode_name := (if \<not> builtin then Some (strip g2) else None),
                      dcl_initial_value := strip_if (group mo 3),
                      dcl_is_static := contains ''STATIC'' (upper (strip g2)),
                      dcl_line_number := line_num,
                      dcl_column_start := py_find (upper line) (upper name),
                      dcl_column_end := py_find (upper line) (upper name) + int (length name)\<rparr>)
                  m))))))"

subsection \<open>\<open>_parse_syn\<close>\<close>

text \<open>\<open>SYN\s+([A-Z_][A-Z0-9_]*)(?:\s+([A-Z_][A-Z0-9_]*))?\s*=\s*([^;]+)\s*;?\<close>\<close>

definition syn_re :: regex where
  "syn_re = seqs [Lit ''SYN'', ws1, Group 1 ident, Opt (Seq ws1 (Group 2 ident)), ws0,
                  Lit ''='', ws0, Group 3 (Plus (Sym (NotIn '';''))), ws0, Opt (Lit '';'')]"

definition parse_syn :: "string \<Rightarrow> int \<Rightarrow> ChillSemanticModel \<Rightarrow> error + ChillSemanticModel" where
  "parse_syn line line_num m =
     (case re_match True syn_re line of
        None \<Rightarrow> Inr m
      | Some mo \<Rightarrow>
          bind (group_req mo 1) (\<lambda>name.
          bind (group_req mo 3) (\<lambda>g3.
            Inr (add_synonym \<lparr>syn_name = name, syn_value = strip g3, syn_mode = group mo 2,
                              syn_line_number = line_num\<rparr> m))))"


subsection \<open>\<open>_parse_parameters\<close>\<close>

text \<open>\<open>\bINOUT\b\<close>, \<open>\bOUT\b\<close> and \<open>\bIN\b\<close>, each used with IGNORECASE.\<close>

definition word_re :: "string \<Rightarrow> regex" where
  "word_re w = seqs [WordB, Lit w, WordB]"

text \<open>
  The direction of one entry and the entry without the direction keyword: the tests are
  the substring tests \<open>'INOUT' in param.upper()\<close>, \<open>'OUT' in param.upper()\<close> and
  \<open>'IN' in param.upper()\<close>, in this order.
\<close>

definition param_direction :: "string \<Rightarrow> string \<times> string" where
  "param_direction param =
     (if contains ''INOUT'' (upper param)
      then (''INOUT'', re_sub_empty True (word_re ''INOUT'') None param)
      else if contains ''OUT'' (upper param)
      then (''OUT'', re_sub_empty True (word_re ''OUT'') None param)
      else if contains ''IN'' (upper param)
      then (''IN'', re_sub_empty True (word_re ''IN'') None param)
      else (''IN'', param))"

fun parse_parameter_list :: "string list \<Rightarrow> (string \<times> string \<times> string) list" where
  "parse_parameter_list [] = []"
| "parse_parameter_list (p # ps) =
     (if strip p = [] then parse_parameter_list ps
      else (case param_direction (strip p) of
              (direction, param) \<Rightarrow>
                if 2 \<le> length (split_ws (strip param))
                then (hd (split_ws (strip param)), last (split_ws (strip param)), direction)
                     # parse_parameter_list ps
                else if length (split_ws (strip param)) = 1
                then (hd (split_ws (strip param)), ''UNKNOWN'', direction)
                     # parse_parameter_list ps
                else parse_parameter_list ps))"

definition parse_parameters :: "string \<Rightarrow> (string \<times> string \<times> string) list" where
  "parse_parameters params_str = parse_parameter_list (split_on CHR '','' params_str)"

text \<open>\<open>self._parse_parameters(params_str)\<close> under \<open>if params_str:\<close>, else the default.\<close>

definition parameters_of :: "string option \<Rightarrow> (string \<times> string \<times> string) list" where
  "parameters_of g =
     (case g of None \<Rightarrow> [] | Some ps \<Rightarrow> if ps = [] then [] else parse_parameters ps)"

subsection \<open>\<open>_find_end\<close>\<close>

text \<open>\<open>^[A-Z_][A-Z0-9_]*\s*:\s*(PROC|PROCESS|MODULE|REGION)\<close>, case-sensitive.\<close>

definition nested_re :: regex where
  "nested_re = seqs [Bol, ident, ws0, Lit '':'', ws0,
                     Group 1 (Alt (Lit ''PROC'') (Alt (Lit ''PROCESS'')
                                (Alt (Lit ''MODULE'') (Lit ''REGION''))))]"

text \<open>
  The loop of \<open>_find_end\<close> from index \<open>i\<close> on, over the lines from \<open>i\<close> on, with the
  depth so far: the 1-based line of the return inside the loop, or \<open>None\<close> when the loop
  runs to its end.
\<close>

fun find_end_loop :: "string list \<Rightarrow> nat \<Rightarrow> int \<Rightarrow> int option" where
  "find_end_loop [] i depth = None"
| "find_end_loop (l # ls) i depth =
     (if re_match False nested_re (upper (strip l)) \<noteq> None
      then find_end_loop ls (Suc i) (depth + 1)
      else if startswith (upper (strip l)) ''BEGIN''
      then find_end_loop ls (Suc i) (depth + 1)
      else if startswith (upper (strip l)) ''END''
      then (if depth - 1 = 0 then Some (int i + 1) else find_end_loop ls (Suc i) (depth - 1))
      else find_end_loop ls (Suc i) depth)"

definition find_end :: "string list \<Rightarrow> nat \<Rightarrow> string \<Rightarrow> int" where
  "find_end lines start_idx construct =
     (case find_end_loop (drop (start_idx + 1) lines) (start_idx + 1) 1 of
        Some r \<Rightarrow> r
      | None \<Rightarrow> int start_idx + 1)"

subsection \<open>\<open>_parse_proc\<close>, \<open>_parse_process\<close> and \<open>_parse_signal\<close>\<close>

text \<open>
  \<open>([A-Z_][A-Z0-9_]*)\s*:\s*PROC\s*(?:\(([^)]*)\))?\s*(?:RETURNS\s*\(([^)]+)\))?\<close>,
  \<open>([A-Z_][A-Z0-9_]*)\s*:\s*PROCESS\s*(?:\(([^)]*)\))?\<close> and
  \<open>SIGNAL\s+([A-Z_][A-Z0-9_]*)(?:\s*\(([^)]*)\))?\s*;?\<close>.
\<close>

definition proc_re :: regex where
  "proc_re = seqs [Group 1 ident, ws0, Lit '':'', ws0, Lit ''PROC'', ws0,
                   Opt (seqs [Lit ''('', Group 2 (Star (Sym (NotIn '')''))), Lit '')'']), ws0,
                   Opt (seqs [Lit ''RETURNS'', ws0, Lit ''('',
                              Group 3 (Plus (Sym (NotIn '')''))), Lit '')''])]"

definition process_re :: regex where
  "process_re = seqs [Group 1 ident, ws0, Lit '':'', ws0, Lit ''PROCESS'', ws0,
                      Opt (seqs [Lit ''('', Group 2 (Star (Sym (NotIn '')''))), Lit '')''])]"

definition signal_re :: regex where
  "signal_re = seqs [Lit ''SIGNAL'', ws1, Group 1 ident,
                     Opt (seqs [ws0, Lit ''('', Group 2 (Star (Sym (NotIn '')''))), Lit '')'']),
                     ws0, Opt (Lit '';'')]"

definition parse_proc ::
  "string \<Rightarrow> int \<Rightarrow> string list \<Rightarrow> nat \<Rightarrow> ChillSemanticModel \<Rightarrow> error + ChillSemanticModel" where
  "parse_proc line line_num all_lines start_idx m =
     (case re_match True proc_re line of
        None \<Rightarrow> Inr m
      | Some mo \<Rightarrow>
          bind (group_req mo 1) (\<lambda>name.
            Inr (add_proc
                  \<lparr>proc_name = name, proc_parameters = parameters_of (group mo 2),
                   proc_returns_mode = strip_if (group mo 3),
                   proc_is_general = contains ''GENERAL'' (upper line),
                   proc_is_inline = False, proc_is_recursive = False, proc_exceptions = [],
                   proc_local_dcls = [], proc_local_modes = [], proc_line_start = line_num,
                   proc_line_end = find_end all_lines start_idx ''PROC'',
                   proc_body_start = 0\<rparr> m)))"

definition parse_process ::
  "string \<Rightarrow> int \<Rightarrow> string list \<Rightarrow> nat \<Rightarrow> ChillSemanticModel \<Rightarrow> error + ChillSemanticModel" where
  "parse_process line line_num all_lines start_idx m =
     (case re_match True process_re line of
        None \<Rightarrow> Inr m
      | Some mo \<Rightarrow>
          bind (group_req mo 1) (\<lambda>name.
            Inr (add_process
                  \<lparr>process_name = name, process_parameters = parameters_of (group mo 2),
                   process_priority = None, process_local_dcls = [],
                   process_local_modes = [], process_line_start = line_num,
                   process_line_end = find_end all_lines start_idx ''PROCESS''\<rparr> m)))"

fun signal_parameters :: "string list \<Rightarrow> (string \<times> string) list" where
  "signal_parameters [] = []"
| "signal_parameters (p # ps) =
     (if 2 \<le> length (split_ws (strip p))
      then (hd (split_ws (strip p)), last (split_ws (strip p))) # signal_parameters ps
      else signal_parameters ps)"

definition parse_signal :: "string \<Rightarrow> int \<Rightarrow> ChillSemanticModel \<Rightarrow> error + ChillSemanticModel" where
  "parse_signal line line_num m =
     (case re_match True signal_re line of
        None \<Rightarrow> Inr m
      | Some mo \<Rightarrow>
          bind (group_req mo 1) (\<lambda>name.
            Inr (add_signal
                  \<lparr>sig_name = name,
                   sig_parameters =
                     (case group mo 2 of
                        None \<Rightarrow> []
                      | Some ps \<Rightarrow>
                          if ps = [] then [] else signal_parameters (split_on CHR '','' ps)),
                   sig_line_number = line_num\<rparr> m)))"

subsection \<open>\<open>_parse_declarations\<close> and \<open>parse\<close>\<close>

text \<open>
  \<open>^[A-Z_][A-Z0-9_]*\s*:\s*PROC\<close> and \<open>^[A-Z_][A-Z0-9_]*\s*:\s*PROCESS\<close>, matched
  against the stripped line in upper case.
\<close>

definition proc_header_re :: regex where
  "proc_header_re = seqs [Bol, ident, ws0, Lit '':'', ws0, Lit ''PROC'']"

definition process_header_re :: regex where
  "process_header_re = seqs [Bol, ident, ws0, Lit '':'', ws0, Lit ''PROCESS'']"

text \<open>The body of the loop over the lines: line \<open>i\<close> (0-based) of \<open>lines\<close>.\<close>

definition parse_line ::
  "string list \<Rightarrow> nat \<Rightarrow> string \<Rightarrow> ChillSemanticModel \<Rightarrow> error + ChillSemanticModel" where
  "parse_line lines i line m =
     (if startswith (upper (strip line)) ''MODULE''
      then parse_module (upper (strip line)) (int i + 1) m
      else if startswith (upper (strip line)) ''NEWMODE''
              \<or> startswith (upper (strip line)) ''SYNMODE''
      then parse_newmode (strip line) (int i + 1) m
      else if startswith (upper (strip line)) ''DCL''
      then parse_dcl (strip line) (int i + 1) m
      else if startswith (upper (strip line)) ''SYN''
      then parse_syn (strip line) (int i + 1) m
      else if re_match False proc_header_re (upper (strip line)) \<noteq> None
      then parse_proc (strip line) (int i + 1) lines i m
      else if re_match False process_header_re (upper (strip line)) \<noteq> None
      then parse_process (strip line) (int i + 1) lines i m
      else if startswith (upper (strip line)) ''SIGNAL''
      then parse_signal (strip line) (int i + 1) m
      else Inr m)"

text \<open>
  The loop: an exception ends it, and leaves the model as the lines before built it.
\<close>

fun parse_lines ::
  "string list \<Rightarrow> nat \<Rightarrow> string list \<Rightarrow> ChillSemanticModel \<Rightarrow>
   error option \<times> ChillSemanticModel" where
  "parse_lines lines i [] m = (None, m)"
| "parse_lines lines i (l # ls) m =
     (case parse_line lines i l m of
        Inl e \<Rightarrow> (Some e, m)
      | Inr m' \<Rightarrow> parse_lines lines (Suc i) ls m')"

definition parse_declarations ::
  "string \<Rightarrow> ChillSemanticModel \<Rightarrow> error option \<times> ChillSemanticModel" where
  "parse_declarations source m = parse_lines (split_on nl source) 0 (split_on nl source) m"

text \<open>
  The parser object, and \<open>parse\<close> on it: the value returned, or the exception raised, with
  the parser as the call leaves it.
\<close>

record ChillParser =
  model :: ChillSemanticModel
  lines :: "string list"
  current_line :: int

definition new_parser :: ChillParser where
  "new_parser = \<lparr>model = new_model, lines = [], current_line = 0\<rparr>"

definition parse :: "string \<Rightarrow> ChillParser \<Rightarrow> (error + ChillSemanticModel) \<times> ChillParser" where
  "parse source p =
     (case parse_declarations (preprocess source) new_model of
        (err, m) \<Rightarrow>
          ((case err of None \<Rightarrow> Inr m | Some e \<Rightarrow> Inl e),
           p\<lparr>model := m, lines := split_on nl source, current_line := 0\<rparr>))"


section \<open>The query layer\<close>

subsection \<open>\<open>get_completions_at_position\<close>\<close>

text \<open>
  The prefix loop \<open>for i in range(column - 1, -1, -1)\<close>: \<open>n\<close> is \<open>i + 1\<close>, and the loop
  breaks at the first index outside the line or at a character that is neither
  alphanumeric nor an underscore.
\<close>

fun prefix_loop :: "string \<Rightarrow> nat \<Rightarrow> string \<Rightarrow> string" where
  "prefix_loop line 0 prefix = prefix"
| "prefix_loop line (Suc i) prefix =
     (if i < length line \<and> is_word (line ! i) then prefix_loop line i ((line ! i) # prefix)
      else prefix)"

definition get_prefix :: "string \<Rightarrow> int \<Rightarrow> string" where
  "get_prefix line column = prefix_loop line (nat column) []"

text \<open>
  The reserved words and the predefined names are Python sets: the order in which the
  loop meets them is not fixed, and the lists stand for one such order.
\<close>

definition get_completions_at_position ::
  "ChillSemanticModel \<Rightarrow> string \<Rightarrow> int \<Rightarrow> (string \<times> string) list" where
  "get_completions_at_position m line column =
     map (\<lambda>kw. (kw, ''keyword''))
       (filter (\<lambda>kw. startswith kw (upper (get_prefix line column))) CHILL_RESERVED_WORDS)
     @ map (\<lambda>pred. (pred, ''builtin''))
         (filter (\<lambda>pred. startswith pred (upper (get_prefix line column))) CHILL_PREDEFINED)
     @ map (\<lambda>(name, dcl). (name, ''DCL '' @ mode_value (dcl_mode dcl)))
         (filter (\<lambda>(name, dcl). CHR ''.'' \<notin> set name
                    \<and> startswith (upper name) (upper (get_prefix line column))) (dcls m))
     @ map (\<lambda>name. (name, ''mode''))
         (filter (\<lambda>name. startswith (upper name) (upper (get_prefix line column)))
            (dict_keys (modes m)))
     @ map (\<lambda>name. (name, ''procedure''))
         (filter (\<lambda>name. startswith (upper name) (upper (get_prefix line column)))
            (dict_keys (procs m)))
     @ map (\<lambda>name. (name, ''constant''))
         (filter (\<lambda>name. startswith (upper name) (upper (get_prefix line column)))
            (dict_keys (synonyms m)))"

subsection \<open>\<open>get_hover_info\<close>\<close>

text \<open>
  \<open>str(i)\<close> for an integer, and for a bound that may be \<open>None\<close>; \<open>show_digits\<close> writes
  an integer that is not negative.
\<close>

function show_digits :: "int \<Rightarrow> string" where
  "show_digits i =
     (if i < 10 then [digits ! nat i]
      else show_digits (i div 10) @ [digits ! nat (i mod 10)])"
  by pat_completeness auto
termination
  by (relation "measure nat") auto

definition show_int :: "int \<Rightarrow> string" where
  "show_int i = (if i < 0 then ''-'' @ show_digits (- i) else show_digits i)"

definition show_int_opt :: "int option \<Rightarrow> string" where
  "show_int_opt x = (case x of None \<Rightarrow> ''None'' | Some i \<Rightarrow> show_int i)"

definition dcl_info :: "string \<Rightarrow> DclDefinition \<Rightarrow> string" where
  "dcl_info word dcl =
     ''**'' @ word @ ''** - DCL '' @ mode_value (dcl_mode dcl)
     @ (case dcl_mode_name dcl of
          None \<Rightarrow> []
        | Some n \<Rightarrow> if n = [] then [] else '' ('' @ n @ '')'')
     @ (case dcl_initial_value dcl of
          None \<Rightarrow> []
        | Some v \<Rightarrow> if v = [] then [] else [nl, nl] @ ''Initial value: '' @ v)"

definition mode_info :: "string \<Rightarrow> NewmodeDefinition \<Rightarrow> string" where
  "mode_info word mode =
     ''**'' @ word @ ''** - NEWMODE '' @ mode_value (nm_base_mode mode)
     @ (if nm_enum_values mode \<noteq> []
        then [nl, nl] @ ''Values: '' @ join '', '' (nm_enum_values mode) else [])
     @ (if nm_range_low mode \<noteq> None
        then [nl, nl] @ ''Range: '' @ show_int_opt (nm_range_low mode) @ '':''
             @ show_int_opt (nm_range_high mode)
        else [])
     @ (if nm_fields mode \<noteq> []
        then [nl, nl] @ ''Fields: '' @ join '', '' (dict_keys (nm_fields mode)) else [])"

definition proc_info :: "string \<Rightarrow> ProcDefinition \<Rightarrow> string" where
  "proc_info word proc =
     ''**'' @ word @ ''** - PROC(''
     @ join '', '' (map (\<lambda>(n, md, d). n @ '' '' @ d @ '' '' @ md) (proc_parameters proc))
     @ '')''
     @ (case proc_returns_mode proc of
          None \<Rightarrow> []
        | Some r \<Rightarrow> if r = [] then [] else '' RETURNS('' @ r @ '')'')"

definition get_hover_info :: "ChillSemanticModel \<Rightarrow> string \<Rightarrow> string option" where
  "get_hover_info m word =
     (if upper word \<in> set CHILL_RESERVED_WORDS
      then Some (''**'' @ word @ ''** - CHILL reserved word'')
      else if upper word \<in> set CHILL_PREDEFINED
      then Some (''**'' @ word @ ''** - CHILL predefined name'')
      else (case get_dcl m word of
              Some dcl \<Rightarrow> Some (dcl_info word dcl)
            | None \<Rightarrow>
               (case get_mode m word of
                  Some mode \<Rightarrow> Some (mode_info word mode)
                | None \<Rightarrow>
                   (case get_proc m word of
                      Some proc \<Rightarrow> Some (proc_info word proc)
                    | None \<Rightarrow>
                       (case dict_get (synonyms m) word of
                          Some syn \<Rightarrow> Some (''**'' @ word @ ''** - SYN = '' @ syn_value syn)
                        | None \<Rightarrow> None)))))"

section \<open>Reference enumeration: \<open>ChillLSPServer._handle_references\<close>\<close>

text \<open>
  \<open>_get_word_at_position\<close>: the two \<open>while\<close> statements walk from the cursor to the ends of
  the run of alphanumeric characters and underscores around it. The line and the
  character of a position are the unsigned integers of the protocol.
\<close>

fun word_start :: "string \<Rightarrow> nat \<Rightarrow> nat" where
  "word_start line_text 0 = 0"
| "word_start line_text (Suc n) =
     (if is_word (line_text ! n) then word_start line_text n else Suc n)"

function word_end :: "string \<Rightarrow> nat \<Rightarrow> nat" where
  "word_end line_text e =
     (if e < length line_text \<and> is_word (line_text ! e) then word_end line_text (Suc e)
      else e)"
  by pat_completeness auto
termination
  by (relation "measure (\<lambda>(line_text, e). length line_text - e)") auto

definition get_word_at_position :: "string \<Rightarrow> nat \<Rightarrow> nat \<Rightarrow> string" where
  "get_word_at_position text line char =
     (if length (split_on nl text) \<le> line then []
      else (let line_text = split_on nl text ! line;
                c = (if length line_text < char then length line_text else char)
            in drop (word_start line_text c) (take (word_end line_text c) line_text)))"

text \<open>
  The pattern \<open>\b + re.escape(word) + \b\<close> with IGNORECASE reads the word itself,
  character by character; the result lists \<open>(line, start, end)\<close>, all 0-based, for each
  match of each line.
\<close>

definition references_of :: "string \<Rightarrow> string \<Rightarrow> (nat \<times> nat \<times> nat) list" where
  "references_of text word =
     concat (map (\<lambda>(i, line). map (\<lambda>(s, e). (i, s, e)) (finditer True (word_re word) line))
               (enumerate 0 (split_on nl text)))"

definition handle_references :: "string \<Rightarrow> nat \<Rightarrow> nat \<Rightarrow> (nat \<times> nat \<times> nat) list" where
  "handle_references text line char =
     (if get_word_at_position text line char = [] then []
      else references_of text (get_word_at_position text line char))"


section \<open>Views of a parsed model\<close>

text \<open>
  What the theorems below read off a model: the keys of the declaration table with the
  line of each entry, and the signature and extent of each procedure.
\<close>

definition dcl_lines :: "ChillSemanticModel \<Rightarrow> (string \<times> int) list" where
  "dcl_lines m = map (\<lambda>(k, d). (k, dcl_line_number d)) (dcls m)"

definition module_lines :: "ChillSemanticModel \<Rightarrow> (string \<times> int) list" where
  "module_lines m = map (\<lambda>(k, md). (k, mod_line_start md)) (modules m)"

definition proc_view ::
  "ChillSemanticModel \<Rightarrow>
   (string \<times> (string \<times> string \<times> string) list \<times> string option \<times> int \<times> int) list" where
  "proc_view m =
     map (\<lambda>(k, p). (k, proc_parameters p, proc_returns_mode p, proc_line_start p,
                      proc_line_end p)) (procs m)"

text \<open>
  Hover over a parsed document: the descriptions of a list of words on the model of one
  parse, and a document in which \<open>count\<close> is a declaration and a synonym and \<open>handler\<close>
  is a mode and a procedure.
\<close>

definition hover_parsed :: "string \<Rightarrow> string list \<Rightarrow> string option list" where
  "hover_parsed source ws =
     (case fst (parse source new_parser) of
        Inl e \<Rightarrow> []
      | Inr m \<Rightarrow> map (get_hover_info m) ws)"

definition hover_example :: string where
  "hover_example =
     join [nl] [''NEWMODE counter = RANGE(0:65535);'', ''NEWMODE status = SET(idle, active, error);'',
                ''NEWMODE point = STRUCT(x INT, y INT);'', ''SYN max_size = 100;'',
                ''DCL count counter := 0;'', ''SYN count = 5;'', ''NEWMODE handler = INT;'',
                ''handler: PROC(input INT) RETURNS(INT);'', ''END handler;'',
                ''worker: PROC(a INOUT INT, b CHAR);'', ''END worker;'']"

text \<open>
  The names that the query layer compares in upper case are ASCII: the keys of the
  tables of declarations, modes, procedures and synonyms.
\<close>

definition ascii_names :: "ChillSemanticModel \<Rightarrow> bool" where
  "ascii_names m =
     list_all ascii_text (dict_keys (dcls m) @ dict_keys (modes m) @ dict_keys (procs m)
                          @ dict_keys (synonyms m))"


text \<open>
  An occurrence of a word as a whole word of a line, at the 0-based column \<open>s\<close>: the
  line reads the word there, case ignored, and neither the character before it nor the
  character after it, where the line has one, is alphanumeric or an underscore.
\<close>

definition occurs_at :: "string \<Rightarrow> string \<Rightarrow> nat \<Rightarrow> bool" where
  "occurs_at word line s =
     (s + length word \<le> length line
      \<and> upper (take (length word) (drop s line)) = upper word
      \<and> (s = 0 \<or> \<not> is_word (line ! (s - 1)))
      \<and> (s + length word = length line \<or> \<not> is_word (line ! (s + length word))))"

text \<open>
  The same inside a scan: a match of the word at the front of the text \<open>r\<close> still to scan,
  with \<open>p\<close> the character before it, and a match \<open>s\<close> characters into \<open>r\<close>.
\<close>

definition match_here :: "string \<Rightarrow> char option \<Rightarrow> string \<Rightarrow> bool" where
  "match_here word p r =
     (\<not> is_word_opt p \<and> length word \<le> length r
      \<and> upper (take (length word) r) = upper word
      \<and> (drop (length word) r = [] \<or> \<not> is_word (hd (drop (length word) r))))"

definition occ_in :: "string \<Rightarrow> char option \<Rightarrow> string \<Rightarrow> nat \<Rightarrow> bool" where
  "occ_in word p r s = match_here word (if s = 0 then p else Some (r ! (s - 1))) (drop s r)"

section \<open>Evaluation\<close>

text \<open>
  The equations of the two functions defined by a measure are applied by name, or by
  \<open>code_simp\<close> on a closed term.
\<close>

declare word_end.simps [simp del]

declare show_digits.simps [simp del]

lemmas char_defs = in_chars_def upper_char_def lower_char_def is_space_def is_digit_def
  is_word_def is_alnum_def is_upper_def is_lower_def upper_letters_def lower_letters_def
  digits_def is_word_opt_def at_boundary_def

section \<open>Dictionaries\<close>

lemma dict_get_dict_set: "dict_get (dict_set k v d) k' = (if k' = k then Some v else dict_get d k')"
  by (induction d) (auto simp: dict_get_def)

lemma set_dict_set: "set (dict_set k v d) \<subseteq> insert (k, v) (set d)"
  by (induction d) auto




section \<open>Lexical cleanup and line numbers\<close>

text \<open>
  C1. The claim: the cleaned text has as many lines as the document, so that the line of
  an entity in the cleaned text is its line in the document. The block-comment pattern
  is replaced by the empty string with the line breaks it spans: in the two-line
  document whose comment opens on line 1 and closes on line 2 before \<open>DCL x INT;\<close>, the
  cleaned text has one line, and the declaration written on line 2 is recorded on line 1.
\<close>

theorem preprocess_merges_lines:
  "line_count (''/*'' @ [nl] @ ''*/DCL x INT;'') = 2
   \<and> preprocess (''/*'' @ [nl] @ ''*/DCL x INT;'') = ''DCL x INT;''
   \<and> line_count (preprocess (''/*'' @ [nl] @ ''*/DCL x INT;'')) = 1
   \<and> map_sum id dcl_lines (fst (parse (''/*'' @ [nl] @ ''*/DCL x INT;'') new_parser))
       = Inr [(''x'', 1)]"
  by code_simp

section \<open>Exceptions of the scanner\<close>

text \<open>
  C2. The claim: \<open>parse\<close> returns a model for every text, and a line whose keyword matches
  while its pattern fails is skipped. On \<open>DCL x\<close> followed by two blanks and a semicolon
  the pattern matches with a blank mode text; \<open>_mode_str_to_enum\<close> guards the empty
  string, \<open>_is_builtin_mode\<close> indexes the empty list of its tokens, and \<open>parse\<close> raises
  \<open>IndexError\<close>. With one blank the pattern fails and the line is skipped.
\<close>

theorem parse_raises_on_blank_mode:
  "fst (parse ''DCL x  ;'' new_parser) = Inl IndexError
   \<and> fst (parse ''DCL x ;'' new_parser) = Inr new_model"
  by code_simp

section \<open>Directions of parameters\<close>

text \<open>
  C5. The claim: an entry with no direction keyword gets the direction \<open>IN\<close>, and
  \<open>INOUT\<close> goes before \<open>OUT\<close>, which goes before \<open>IN\<close>. The direction is chosen by a
  substring test on the entry in upper case, while the keyword is removed as a whole
  word: the entry \<open>timeout INT\<close> holds no direction keyword and gets \<open>OUT\<close>, from the
  name of its parameter, also through the header of a procedure.
\<close>

theorem parameter_direction_from_substring:
  "parse_parameters ''timeout INT'' = [(''timeout'', ''INT'', ''OUT'')]
   \<and> map_sum id proc_view (fst (parse ''p: PROC(timeout INT);'' new_parser))
       = Inr [(''p'', [(''timeout'', ''INT'', ''OUT'')], None, 1, 1)]"
  by code_simp


section \<open>Laws of the query layer\<close>

text \<open>The reserved words and the predefined names are written in upper case.\<close>

lemma reserved_upper_all: "list_all (\<lambda>kw. upper kw = kw) CHILL_RESERVED_WORDS"
  by (simp add: CHILL_RESERVED_WORDS_def upper_def upper_char_def lower_letters_def upper_letters_def)

lemma predefined_upper_all: "list_all (\<lambda>kw. upper kw = kw) CHILL_PREDEFINED"
  by (simp add: CHILL_PREDEFINED_def upper_def upper_char_def lower_letters_def upper_letters_def)

lemma reserved_upper: "kw \<in> set CHILL_RESERVED_WORDS \<Longrightarrow> upper kw = kw"
  using reserved_upper_all by (simp add: list_all_iff)

lemma predefined_upper: "kw \<in> set CHILL_PREDEFINED \<Longrightarrow> upper kw = kw"
  using predefined_upper_all by (simp add: list_all_iff)

lemma prefix_loop_run:
  "n \<le> length line \<Longrightarrow>
   prefix_loop line n acc = rev (takeWhile is_word (rev (take n line))) @ acc"
proof (induction n arbitrary: acc)
  case 0
  then show ?case by simp
next
  case (Suc i)
  then have lt: "i < length line" by simp
  then have tk: "take (Suc i) line = take i line @ [line ! i]"
    by (simp add: take_Suc_conv_app_nth)
  show ?case
  proof (cases "is_word (line ! i)")
    case True
    with Suc lt tk show ?thesis by simp
  next
    case False
    with lt tk show ?thesis by simp
  qed
qed

lemma prefix_loop_outside:
  "length line < n \<Longrightarrow> prefix_loop line n [] = []"
  by (cases n) auto

lemma completion_names:
  "(name, kind) \<in> set (get_completions_at_position m line column) \<Longrightarrow>
   (name \<in> set CHILL_RESERVED_WORDS \<or> name \<in> set CHILL_PREDEFINED
    \<or> (name \<in> set (dict_keys (dcls m)) \<and> CHR ''.'' \<notin> set name)
    \<or> name \<in> set (dict_keys (modes m)) \<or> name \<in> set (dict_keys (procs m))
    \<or> name \<in> set (dict_keys (synonyms m)))
   \<and> startswith (upper name) (upper (get_prefix line column))"
  by (auto simp: get_completions_at_position_def dict_keys_def reserved_upper predefined_upper
      intro: rev_image_eqI)


lemma completion_dcl_entry:
  assumes "(name, dcl) \<in> set (dcls m)" and "CHR ''.'' \<notin> set name"
    and "startswith (upper name) (upper (get_prefix line column))"
  shows "(name, ''DCL '' @ mode_value (dcl_mode dcl))
          \<in> set (get_completions_at_position m line column)"
proof -
  let ?f = "\<lambda>(name, dcl). (name, ''DCL '' @ mode_value (dcl_mode dcl))"
  let ?P = "\<lambda>(name, dcl). CHR ''.'' \<notin> set name
                    \<and> startswith (upper name) (upper (get_prefix line column))"
  from assms have "(name, dcl) \<in> set (filter ?P (dcls m))" by simp
  then have "?f (name, dcl) \<in> ?f ` set (filter ?P (dcls m))" by (rule imageI)
  then have "(name, ''DCL '' @ mode_value (dcl_mode dcl)) \<in> set (map ?f (filter ?P (dcls m)))"
    by simp
  then show ?thesis unfolding get_completions_at_position_def by simp
qed

lemma add_dcl_entry:
  "(dcl_name d, d\<lparr>dcl_parent_scope := Some (current_scope m)\<rparr>) \<in> set (dcls (add_dcl d m))"
proof -
  have "length (current_scope m @ ''.'' @ dcl_name d) \<noteq> length (dcl_name d)" by simp
  then have "current_scope m @ ''.'' @ dcl_name d \<noteq> dcl_name d" by metis
  then have "dict_get (dcls (add_dcl d m)) (dcl_name d)
             = Some (d\<lparr>dcl_parent_scope := Some (current_scope m)\<rparr>)"
    by (auto simp: add_dcl_def Let_def dict_get_dict_set)
  then show ?thesis unfolding dict_get_def by (rule map_of_SomeD)
qed

text \<open>
  C3. Completion prefix law. For every model with ASCII names, every ASCII line and
  every column: each name returned
  starts, in upper case, with the prefix in upper case; each reserved word, predefined
  name, declaration name (a key of the declaration table without a dot; the keys
  \<open>scope.name\<close> are the scoped duplicates), mode name, procedure name and synonym name that
  starts so is returned with its kind label, a declaration that \<open>add_dcl\<close> has stored
  under its name, in whatever scope; and the prefix is the longest run of alphanumeric
  characters and underscores that ends at the cursor, empty when the cursor is outside
  the line.
\<close>

theorem completion_prefix_law:
  assumes "ascii_text line" and "ascii_names m"
  shows
  "(\<forall>(name, kind) \<in> set (get_completions_at_position m line column).
      startswith (upper name) (upper (get_prefix line column)))
   \<and> (\<forall>kw \<in> set CHILL_RESERVED_WORDS.
        startswith (upper kw) (upper (get_prefix line column)) \<longrightarrow>
        (kw, ''keyword'') \<in> set (get_completions_at_position m line column))
   \<and> (\<forall>pred \<in> set CHILL_PREDEFINED.
        startswith (upper pred) (upper (get_prefix line column)) \<longrightarrow>
        (pred, ''builtin'') \<in> set (get_completions_at_position m line column))
   \<and> (\<forall>(name, dcl) \<in> set (dcls m).
        CHR ''.'' \<notin> set name \<and> startswith (upper name) (upper (get_prefix line column)) \<longrightarrow>
        (name, ''DCL '' @ mode_value (dcl_mode dcl))
          \<in> set (get_completions_at_position m line column))
   \<and> (\<forall>name \<in> set (dict_keys (modes m)).
        startswith (upper name) (upper (get_prefix line column)) \<longrightarrow>
        (name, ''mode'') \<in> set (get_completions_at_position m line column))
   \<and> (\<forall>name \<in> set (dict_keys (procs m)).
        startswith (upper name) (upper (get_prefix line column)) \<longrightarrow>
        (name, ''procedure'') \<in> set (get_completions_at_position m line column))
   \<and> (\<forall>name \<in> set (dict_keys (synonyms m)).
        startswith (upper name) (upper (get_prefix line column)) \<longrightarrow>
        (name, ''constant'') \<in> set (get_completions_at_position m line column))
   \<and> (ascii_text (dcl_name d) \<and> CHR ''.'' \<notin> set (dcl_name d)
        \<and> startswith (upper (dcl_name d)) (upper (get_prefix line column)) \<longrightarrow>
        (dcl_name d, ''DCL '' @ mode_value (dcl_mode d))
          \<in> set (get_completions_at_position (add_dcl d m) line column))
   \<and> (0 \<le> column \<and> column \<le> int (length line) \<longrightarrow>
        get_prefix line column = rev (takeWhile is_word (rev (take (nat column) line))))
   \<and> (column < 0 \<or> int (length line) < column \<longrightarrow> get_prefix line column = [])"
proof (intro conjI)
  show "ascii_text (dcl_name d) \<and> CHR ''.'' \<notin> set (dcl_name d)
        \<and> startswith (upper (dcl_name d)) (upper (get_prefix line column)) \<longrightarrow>
        (dcl_name d, ''DCL '' @ mode_value (dcl_mode d))
          \<in> set (get_completions_at_position (add_dcl d m) line column)"
  proof
    assume a: "ascii_text (dcl_name d) \<and> CHR ''.'' \<notin> set (dcl_name d)
        \<and> startswith (upper (dcl_name d)) (upper (get_prefix line column))"
    from completion_dcl_entry [OF add_dcl_entry [of d m], of line column] a
    show "(dcl_name d, ''DCL '' @ mode_value (dcl_mode d))
          \<in> set (get_completions_at_position (add_dcl d m) line column)"
      by simp
  qed
  show "\<forall>(name, kind) \<in> set (get_completions_at_position m line column).
      startswith (upper name) (upper (get_prefix line column))"
    using completion_names by blast
  show "\<forall>kw \<in> set CHILL_RESERVED_WORDS.
        startswith (upper kw) (upper (get_prefix line column)) \<longrightarrow>
        (kw, ''keyword'') \<in> set (get_completions_at_position m line column)"
    by (auto simp: get_completions_at_position_def reserved_upper)
  show "\<forall>pred \<in> set CHILL_PREDEFINED.
        startswith (upper pred) (upper (get_prefix line column)) \<longrightarrow>
        (pred, ''builtin'') \<in> set (get_completions_at_position m line column)"
    by (auto simp: get_completions_at_position_def predefined_upper)
  show "\<forall>(name, dcl) \<in> set (dcls m).
        CHR ''.'' \<notin> set name \<and> startswith (upper name) (upper (get_prefix line column)) \<longrightarrow>
        (name, ''DCL '' @ mode_value (dcl_mode dcl))
          \<in> set (get_completions_at_position m line column)"
    using completion_dcl_entry by blast
  show "\<forall>name \<in> set (dict_keys (modes m)).
        startswith (upper name) (upper (get_prefix line column)) \<longrightarrow>
        (name, ''mode'') \<in> set (get_completions_at_position m line column)"
    by (auto simp: get_completions_at_position_def)
  show "\<forall>name \<in> set (dict_keys (procs m)).
        startswith (upper name) (upper (get_prefix line column)) \<longrightarrow>
        (name, ''procedure'') \<in> set (get_completions_at_position m line column)"
    by (auto simp: get_completions_at_position_def)
  show "\<forall>name \<in> set (dict_keys (synonyms m)).
        startswith (upper name) (upper (get_prefix line column)) \<longrightarrow>
        (name, ''constant'') \<in> set (get_completions_at_position m line column)"
    by (auto simp: get_completions_at_position_def)
  show "0 \<le> column \<and> column \<le> int (length line) \<longrightarrow>
        get_prefix line column = rev (takeWhile is_word (rev (take (nat column) line)))"
  proof
    assume "0 \<le> column \<and> column \<le> int (length line)"
    then have "nat column \<le> length line" by linarith
    then show "get_prefix line column = rev (takeWhile is_word (rev (take (nat column) line)))"
      by (simp add: get_prefix_def prefix_loop_run)
  qed
  show "column < 0 \<or> int (length line) < column \<longrightarrow> get_prefix line column = []"
    by (auto simp: get_prefix_def prefix_loop_outside)
qed

theorem completion_prefix_law_witness:
  "get_prefix ''x := co'' 7 = ''co''
   \<and> (''CONTEXT'', ''keyword'')
       \<in> set (get_completions_at_position (add_dcl (new_dcl ''count'' M_INT) new_model) ''x := co'' 7)
   \<and> (''COS'', ''builtin'')
       \<in> set (get_completions_at_position (add_dcl (new_dcl ''count'' M_INT) new_model) ''x := co'' 7)
   \<and> (''count'', ''DCL INT'')
       \<in> set (get_completions_at_position (add_dcl (new_dcl ''count'' M_INT) new_model) ''x := co'' 7)"
proof -
  let ?m = "add_dcl (new_dcl ''count'' M_INT) new_model"
  let ?l = "''x := co''"
  have a: "ascii_text ?l" "ascii_names ?m" by code_simp+
  note law = completion_prefix_law [where m = ?m and line = ?l and column = 7, OF a]
  note kws = law [THEN conjunct2, THEN conjunct1]
  note preds = law [THEN conjunct2, THEN conjunct2, THEN conjunct1]
  note decls = law [THEN conjunct2, THEN conjunct2, THEN conjunct2, THEN conjunct1]
  note run = law [THEN conjunct2, THEN conjunct2, THEN conjunct2, THEN conjunct2,
      THEN conjunct2, THEN conjunct2, THEN conjunct2, THEN conjunct2, THEN conjunct1]
  have p: "rev (takeWhile is_word (rev (take (nat 7) ?l))) = ''co''"
    by (simp add: char_defs)
  have c: "(0::int) \<le> 7 \<and> 7 \<le> int (length ?l)" by simp
  from run [THEN mp, OF c] p have pre: "get_prefix ?l 7 = ''co''" by simp
  have k: "''CONTEXT'' \<in> set CHILL_RESERVED_WORDS" by (simp add: CHILL_RESERVED_WORDS_def)
  have b: "''COS'' \<in> set CHILL_PREDEFINED" by (simp add: CHILL_PREDEFINED_def)
  have d: "(''count'', (new_dcl ''count'' M_INT)\<lparr>dcl_parent_scope := Some ''GLOBAL''\<rparr>)
             \<in> set (dcls ?m)"
    by (simp add: add_dcl_def new_dcl_def new_model_def)
  have s: "startswith (upper ''CONTEXT'') (upper ''co'')" "startswith (upper ''COS'') (upper ''co'')"
    "startswith (upper ''count'') (upper ''co'')" "CHR ''.'' \<notin> set ''count''"
    by (simp_all add: upper_def char_defs)
  have v: "mode_value (dcl_mode ((new_dcl ''count'' M_INT)\<lparr>dcl_parent_scope := Some ''GLOBAL''\<rparr>))
             = ''INT''"
    by (simp add: new_dcl_def)
  from bspec [OF kws k] s(1) pre
  have r1: "(''CONTEXT'', ''keyword'') \<in> set (get_completions_at_position ?m ?l 7)" by simp
  from bspec [OF preds b] s(2) pre
  have r2: "(''COS'', ''builtin'') \<in> set (get_completions_at_position ?m ?l 7)" by simp
  from bspec [OF decls d] s(3,4) pre v
  have r3: "(''count'', ''DCL INT'') \<in> set (get_completions_at_position ?m ?l 7)" by simp
  from pre r1 r2 r3 show ?thesis by (intro conjI)
qed

lemma startswith_append: "startswith (p @ q) p"
  by (induction p) auto

lemma hover_formatted:
  "get_hover_info m word = Some s \<Longrightarrow> startswith s (''**'' @ word @ ''** - '')"
proof -
  have pre: "startswith ((''**'' @ word @ ''** - '') @ r) (''**'' @ word @ ''** - '')" for r
    by (rule startswith_append)
  assume "get_hover_info m word = Some s"
  then consider r where "s = (''**'' @ word @ ''** - '') @ r"
    by (auto simp: get_hover_info_def dcl_info_def mode_info_def proc_info_def
        split: if_splits option.splits)
  then show ?thesis using pre by metis
qed

text \<open>
  C9. Hover precedence, for every model and every ASCII word. A word that is reserved in
  upper case gets the description of a reserved word, the same on every model; else a
  predefined one gets that of a predefined name; else the word gets the description of
  the declaration stored under the key of the current scope, else of the one stored
  under the bare word, else of the mode, else of the procedure, else of the synonym
  stored under the word, and no information when none is stored. What is stored counts:
  a declaration added by \<open>add_dcl\<close> is described as a declaration whatever the tables of
  modes, procedures and synonyms hold, a mode added by \<open>add_mode\<close> as a mode when no
  declaration has the name, and so on down the order. Every description begins with the
  word between asterisks, so none is empty.
\<close>

theorem hover_precedence:
  assumes "ascii_text word"
  shows
  "(upper word \<in> set CHILL_RESERVED_WORDS \<longrightarrow>
      get_hover_info m word = Some (''**'' @ word @ ''** - CHILL reserved word'')
      \<and> get_hover_info m word = get_hover_info new_model word)
   \<and> (upper word \<notin> set CHILL_RESERVED_WORDS \<and> upper word \<in> set CHILL_PREDEFINED \<longrightarrow>
      get_hover_info m word = Some (''**'' @ word @ ''** - CHILL predefined name''))
   \<and> (upper word \<notin> set CHILL_RESERVED_WORDS \<and> upper word \<notin> set CHILL_PREDEFINED \<longrightarrow>
      (dict_get (dcls m) (current_scope m @ ''.'' @ word) = Some dcl \<longrightarrow>
         get_hover_info m word = Some (dcl_info word dcl))
      \<and> (dict_get (dcls m) (current_scope m @ ''.'' @ word) = None
           \<and> dict_get (dcls m) word = Some dcl \<longrightarrow>
           get_hover_info m word = Some (dcl_info word dcl))
      \<and> (dict_get (dcls m) (current_scope m @ ''.'' @ word) = None
           \<and> dict_get (dcls m) word = None \<and> dict_get (modes m) word = Some mode \<longrightarrow>
           get_hover_info m word = Some (mode_info word mode))
      \<and> (dict_get (dcls m) (current_scope m @ ''.'' @ word) = None
           \<and> dict_get (dcls m) word = None \<and> dict_get (modes m) word = None
           \<and> dict_get (procs m) word = Some proc \<longrightarrow>
           get_hover_info m word = Some (proc_info word proc))
      \<and> (dict_get (dcls m) (current_scope m @ ''.'' @ word) = None
           \<and> dict_get (dcls m) word = None \<and> dict_get (modes m) word = None
           \<and> dict_get (procs m) word = None \<and> dict_get (synonyms m) word = Some syn \<longrightarrow>
           get_hover_info m word = Some (''**'' @ word @ ''** - SYN = '' @ syn_value syn))
      \<and> (dict_get (dcls m) (current_scope m @ ''.'' @ word) = None
           \<and> dict_get (dcls m) word = None \<and> dict_get (modes m) word = None
           \<and> dict_get (procs m) word = None \<and> dict_get (synonyms m) word = None \<longrightarrow>
           get_hover_info m word = None)
      \<and> (dcl_name d = word
           \<and> (current_scope m = ''GLOBAL'' \<longrightarrow> dict_get (dcls m) (''GLOBAL.'' @ word) = None) \<longrightarrow>
           get_hover_info (add_dcl d m) word
           = Some (dcl_info word (d\<lparr>dcl_parent_scope := Some (current_scope m)\<rparr>)))
      \<and> (nm_name md = word \<and> dict_get (dcls m) (current_scope m @ ''.'' @ word) = None
           \<and> dict_get (dcls m) word = None \<longrightarrow>
           get_hover_info (add_mode md m) word = Some (mode_info word md))
      \<and> (proc_name pr = word \<and> dict_get (dcls m) (current_scope m @ ''.'' @ word) = None
           \<and> dict_get (dcls m) word = None \<and> dict_get (modes m) word = None \<longrightarrow>
           get_hover_info (add_proc pr m) word = Some (proc_info word pr))
      \<and> (syn_name sy = word \<and> dict_get (dcls m) (current_scope m @ ''.'' @ word) = None
           \<and> dict_get (dcls m) word = None \<and> dict_get (modes m) word = None
           \<and> dict_get (procs m) word = None \<longrightarrow>
           get_hover_info (add_synonym sy m) word
           = Some (''**'' @ word @ ''** - SYN = '' @ syn_value sy)))
   \<and> (\<forall>s. get_hover_info m word = Some s \<longrightarrow> startswith s (''**'' @ word @ ''** - ''))"
proof (intro conjI impI allI)
  fix s assume "get_hover_info m word = Some s"
  then show "startswith s (''**'' @ word @ ''** - '')" by (rule hover_formatted)
next
  assume n: "upper word \<notin> set CHILL_RESERVED_WORDS \<and> upper word \<notin> set CHILL_PREDEFINED"
    and d: "dcl_name d = word
           \<and> (current_scope m = ''GLOBAL'' \<longrightarrow> dict_get (dcls m) (''GLOBAL.'' @ word) = None)"
  let ?d = "d\<lparr>dcl_parent_scope := Some (current_scope m)\<rparr>"
  have "length (current_scope m @ ''.'' @ word) \<noteq> length word" by simp
  then have ne: "current_scope m @ ''.'' @ word \<noteq> word" by metis
  have "get_dcl (add_dcl d m) word = Some ?d"
  proof (cases "current_scope m = ''GLOBAL''")
    case True
    with d ne show ?thesis
      by (simp add: get_dcl_def add_dcl_def Let_def dict_get_dict_set)
  next
    case False
    with d show ?thesis
      by (simp add: get_dcl_def add_dcl_def Let_def dict_get_dict_set)
  qed
  with n show "get_hover_info (add_dcl d m) word = Some (dcl_info word ?d)"
    by (simp add: get_hover_info_def)
qed (simp_all add: get_hover_info_def get_dcl_def get_mode_def get_proc_def new_model_def
    add_mode_def add_proc_def add_synonym_def dict_get_dict_set)

theorem hover_precedence_witness:
  "get_hover_info new_model ''MODULE'' = Some ''**MODULE** - CHILL reserved word''
   \<and> get_hover_info
         (add_dcl (new_dcl ''count'' M_INT)
            (add_synonym \<lparr>syn_name = ''count'', syn_value = ''5'', syn_mode = None,
                          syn_line_number = 1\<rparr> new_model)) ''count''
       = Some ''**count** - DCL INT''
   \<and> hover_parsed hover_example
         [''count'', ''handler'', ''worker'', ''max_size'', ''counter'', ''status'', ''point'',
          ''Module'', ''int'', ''nothing'']
       = [Some (''**count** - DCL USER (counter)'' @ [nl, nl] @ ''Initial value: 0''),
          Some ''**handler** - NEWMODE INT'',
          Some ''**worker** - PROC(a INOUT INT, b IN CHAR)'',
          Some ''**max_size** - SYN = 100'',
          Some (''**counter** - NEWMODE RANGE'' @ [nl, nl] @ ''Range: 0:65535''),
          Some (''**status** - NEWMODE SET'' @ [nl, nl] @ ''Values: idle, active, error''),
          Some (''**point** - NEWMODE STRUCT'' @ [nl, nl] @ ''Fields: x, y''),
          Some ''**Module** - CHILL reserved word'',
          Some ''**int** - CHILL predefined name'',
          None]"
proof -
  let ?s = "\<lparr>syn_name = ''count'', syn_value = ''5'', syn_mode = None, syn_line_number = 1\<rparr>"
  let ?m = "add_synonym ?s new_model"
  let ?d = "new_dcl ''count'' M_INT"
  have a: "ascii_text ''MODULE''" "ascii_text ''count''" by code_simp+
  have r: "upper ''MODULE'' \<in> set CHILL_RESERVED_WORDS" by code_simp
  have n: "upper ''count'' \<notin> set CHILL_RESERVED_WORDS \<and> upper ''count'' \<notin> set CHILL_PREDEFINED"
    by code_simp
  have h: "dcl_name ?d = ''count''
           \<and> (current_scope ?m = ''GLOBAL'' \<longrightarrow> dict_get (dcls ?m) (''GLOBAL.'' @ ''count'') = None)"
    by (simp add: new_dcl_def add_synonym_def new_model_def dict_get_def)
  have i: "dcl_info ''count'' (?d\<lparr>dcl_parent_scope := Some (current_scope ?m)\<rparr>)
           = ''**count** - DCL INT''"
    by (simp add: dcl_info_def new_dcl_def)
  note law1 = hover_precedence [where word = "''MODULE''" and m = new_model, OF a(1)]
  from law1 [THEN conjunct1, THEN mp, OF r, THEN conjunct1]
  have c1: "get_hover_info new_model ''MODULE'' = Some ''**MODULE** - CHILL reserved word''"
    by simp
  note law2 = hover_precedence [where word = "''count''" and m = ?m and d = ?d, OF a(2)]
  note stored = law2 [THEN conjunct2, THEN conjunct2, THEN conjunct1, THEN mp, OF n,
      THEN conjunct2, THEN conjunct2, THEN conjunct2, THEN conjunct2, THEN conjunct2,
      THEN conjunct2, THEN conjunct1, THEN mp, OF h]
  from stored i
  have c2: "get_hover_info (add_dcl ?d ?m) ''count'' = Some ''**count** - DCL INT''" by simp
  have c3: "hover_parsed hover_example
         [''count'', ''handler'', ''worker'', ''max_size'', ''counter'', ''status'', ''point'',
          ''Module'', ''int'', ''nothing'']
       = [Some (''**count** - DCL USER (counter)'' @ [nl, nl] @ ''Initial value: 0''),
          Some ''**handler** - NEWMODE INT'',
          Some ''**worker** - PROC(a INOUT INT, b IN CHAR)'',
          Some ''**max_size** - SYN = 100'',
          Some (''**counter** - NEWMODE RANGE'' @ [nl, nl] @ ''Range: 0:65535''),
          Some (''**status** - NEWMODE SET'' @ [nl, nl] @ ''Values: idle, active, error''),
          Some (''**point** - NEWMODE STRUCT'' @ [nl, nl] @ ''Fields: x, y''),
          Some ''**Module** - CHILL reserved word'',
          Some ''**int** - CHILL predefined name'',
          None]"
    by code_simp
  from c1 c2 c3 show ?thesis by (intro conjI)
qed



text \<open>
  Through \<open>parse\<close> the table of processes stays empty: the pattern of a procedure header
  is tried first and matches the header of a process as well, so that the process is
  recorded by \<open>_parse_proc\<close>, as a procedure without parameters.
\<close>

lemma process_header_parsed_as_proc:
  "map_sum id (\<lambda>m. (proc_view m, dict_keys (processes m)))
     (fst (parse (join [nl] [''worker: PROCESS(id INT);'', ''END worker;'']) new_parser))
   = Inr ([(''worker'', [], None, 1, 2)], [])"
  by code_simp

section \<open>Parsing twice\<close>

text \<open>
  C8. \<open>parse\<close> starts from a new model and sets every field of the parser, so the result
  depends on the text alone: two parsers give the same result for one text, and a second
  call on the same parser gives the result of the first again.
\<close>

theorem parse_idempotent:
  "fst (parse source p) = fst (parse source q)
   \<and> model (snd (parse source p)) = model (snd (parse source q))
   \<and> fst (parse source (snd (parse source p))) = fst (parse source p)
   \<and> snd (parse source (snd (parse source p))) = snd (parse source p)"
  by (simp add: parse_def split: prod.splits)


section \<open>Scopes of declarations\<close>

























section \<open>The extent of a body\<close>

text \<open>
  The scenario of the specification: the procedure \<open>handler\<close> gets the parameter
  \<open>(input, INT, IN)\<close>, the return mode \<open>INT\<close> and, as \<open>line_end\<close>, the line of
  \<open>END handler;\<close>.
\<close>

lemma handler_scenario:
  "map_sum id proc_view
     (fst (parse (join [nl] [''handler: PROC(input INT) RETURNS(INT);'', ''  DCL result INT;'',
                             ''  result := input * 2;'', ''  RETURN result;'',
                             ''END handler;'']) new_parser))
   = Inr [(''handler'', [(''input'', ''INT'', ''IN'')], Some ''INT'', 1, 5)]"
  by code_simp

text \<open>
  C7. The claim: for every procedure or process header, the depth starts at 1 on the
  line after the header, each nested procedure, process, module or region header and
  each line that begins with \<open>BEGIN\<close> adds one, each line that begins with \<open>END\<close> takes
  one, and \<open>line_end\<close> of the entity is the line at which the depth is first 0. The
  pattern of \<open>_find_end\<close> knows a nested header as \<open>name: MODULE\<close>, while the scanner
  knows a module header as \<open>MODULE name\<close>: in the first document below the scanner
  records the module \<open>INNER\<close> on line 2, \<open>_find_end\<close> does not count its header, the
  \<open>END\<close> of the module on line 3 brings the depth to 0, and \<open>line_end\<close> of \<open>p\<close> is 3,
  not the line 4 of \<open>END p;\<close>. In the second document the header of the procedure \<open>sync\<close>
  begins with \<open>SYN\<close>: the classifier of synonyms takes the line, its pattern fails, and
  no procedure is recorded at all.
\<close>

theorem nested_module_header_not_counted:
  "map_sum id (\<lambda>m. (proc_view m, module_lines m))
     (fst (parse (join [nl] [''p: PROC();'', ''MODULE inner;'', ''END inner;'', ''END p;''])
             new_parser))
   = Inr ([(''p'', [], None, 1, 3)], [(''INNER'', 2)])
   \<and> find_end [''p: PROC();'', ''MODULE inner;'', ''END inner;'', ''END p;''] 0 ''PROC'' = 3
   \<and> map_sum id proc_view
       (fst (parse (join [nl] [''sync: PROC();'', ''END sync;'']) new_parser))
     = Inr []"
  by code_simp

section \<open>References\<close>

subsection \<open>Case of characters\<close>

lemma letters_facts:
  "length lower_letters = length upper_letters" "distinct lower_letters" "distinct upper_letters"
  "set lower_letters \<inter> set upper_letters = {}"
  by (simp_all add: lower_letters_def upper_letters_def)

lemma lower_upper_char:
  assumes "is_lower x"
  shows "lower_char (upper_char x) = x \<and> is_upper (upper_char x)"
proof -
  from assms obtain i where i: "i < length lower_letters" and x: "x = lower_letters ! i"
    by (auto simp: is_lower_def in_set_conv_nth)
  from i letters_facts(1) have iu: "i < length upper_letters" by simp
  have u: "upper_char x = upper_letters ! i"
    unfolding upper_char_def x
    by (simp add: map_of_zip_nth [OF letters_facts(1) letters_facts(2) iu])
  have "lower_char (upper_letters ! i) = lower_letters ! i"
    unfolding lower_char_def
    by (simp add: map_of_zip_nth [OF letters_facts(1) [symmetric] letters_facts(3) i])
  with u x iu show ?thesis by (simp add: is_upper_def)
qed

lemma upper_lower_char:
  assumes "is_upper x"
  shows "upper_char (lower_char x) = x \<and> \<not> is_lower x"
proof -
  from assms obtain i where i: "i < length upper_letters" and x: "x = upper_letters ! i"
    by (auto simp: is_upper_def in_set_conv_nth)
  from i letters_facts(1) have il: "i < length lower_letters" by simp
  have l: "lower_char x = lower_letters ! i"
    unfolding lower_char_def x
    by (simp add: map_of_zip_nth [OF letters_facts(1) [symmetric] letters_facts(3) il])
  have "upper_char (lower_letters ! i) = upper_letters ! i"
    unfolding upper_char_def
    by (simp add: map_of_zip_nth [OF letters_facts(1) letters_facts(2) i])
  moreover from assms letters_facts(4) have "\<not> is_lower x"
    by (auto simp: is_upper_def is_lower_def)
  ultimately show ?thesis using l x by simp
qed

lemma upper_char_id: "\<not> is_lower x \<Longrightarrow> upper_char x = x"
  unfolding upper_char_def is_lower_def
  using map_of_zip_is_None [OF letters_facts(1), of x] by simp

lemma lower_char_id: "\<not> is_upper x \<Longrightarrow> lower_char x = x"
  unfolding lower_char_def is_upper_def
  using map_of_zip_is_None [OF letters_facts(1) [symmetric], of x] by simp

lemma in_chars_single: "in_chars True [c] x \<longleftrightarrow> upper_char x = upper_char c"
proof
  assume "in_chars True [c] x"
  then consider "x = c" | "upper_char x = c" | "lower_char x = c"
    by (auto simp: in_chars_def)
  then show "upper_char x = upper_char c"
  proof cases
    case 1
    then show ?thesis by simp
  next
    case 2
    show ?thesis
    proof (cases "is_lower x")
      case True
      from lower_upper_char [OF True] 2 have "is_upper c" by simp
      from upper_lower_char [OF this] have "upper_char c = c" by (simp add: upper_char_id)
      with 2 show ?thesis by simp
    next
      case False
      with 2 show ?thesis by (simp add: upper_char_id)
    qed
  next
    case 3
    show ?thesis
    proof (cases "is_upper x")
      case True
      from upper_lower_char [OF True] 3 show ?thesis by (simp add: upper_char_id)
    next
      case False
      with 3 show ?thesis by (simp add: lower_char_id)
    qed
  qed
next
  assume e: "upper_char x = upper_char c"
  show "in_chars True [c] x"
  proof (cases "is_lower x")
    case lx: True
    show ?thesis
    proof (cases "is_lower c")
      case True
      from lower_upper_char [OF lx] lower_upper_char [OF True] e have "x = c" by metis
      then show ?thesis by (simp add: in_chars_def)
    next
      case False
      with e have "upper_char x = c" by (simp add: upper_char_id)
      then show ?thesis by (simp add: in_chars_def)
    qed
  next
    case nx: False
    show ?thesis
    proof (cases "is_lower c")
      case True
      from nx e have "x = upper_char c" by (simp add: upper_char_id)
      with lower_upper_char [OF True] have "lower_char x = c" by simp
      then show ?thesis by (simp add: in_chars_def)
    next
      case False
      with nx e have "x = c" by (simp add: upper_char_id)
      then show ?thesis by (simp add: in_chars_def)
    qed
  qed
qed

lemma is_alnum_letters:
  "is_upper x \<Longrightarrow> is_word x" "is_lower x \<Longrightarrow> is_word x"
  by (simp_all add: is_word_def is_alnum_def)

lemma is_word_upper_char: "is_word (upper_char x) = is_word x"
proof (cases "is_lower x")
  case True
  with lower_upper_char [OF True] show ?thesis by (simp add: is_alnum_letters)
next
  case False
  then show ?thesis by (simp add: upper_char_id)
qed

subsection \<open>The pattern of a word\<close>

lemma list_all2_in_chars:
  "length t = length w \<Longrightarrow>
   list_all2 (\<lambda>c x. in_chars True [c] x) w t \<longleftrightarrow> upper t = upper w"
proof (induction w arbitrary: t)
  case Nil
  then show ?case by (simp add: upper_def)
next
  case (Cons c w)
  then obtain x t' where t: "t = x # t'" by (cases t) auto
  with Cons show ?case by (simp add: upper_def in_chars_single)
qed

lemma mt_Lit:
  "mt ic (Lit w) k s =
     (if length w \<le> length (rest s)
         \<and> list_all2 (\<lambda>c x. in_chars ic [c] x) w (take (length w) (rest s))
      then k (s\<lparr>prev := (if w = [] then prev s else Some (rest s ! (length w - 1))),
                rest := drop (length w) (rest s)\<rparr>)
      else None)"
proof (induction w arbitrary: s)
  case Nil
  then show ?case by simp
next
  case (Cons c w)
  show ?case
  proof (cases "rest s")
    case Nil
    then show ?thesis by simp
  next
    case (Cons x xs)
    then show ?thesis
      by (simp add: Cons.IH nth_Cons')
  qed
qed

lemma upper_word_chars:
  assumes "upper t = upper w" and "list_all is_word w"
  shows "list_all is_word t"
proof -
  have "\<forall>i < length t. is_word (t ! i)"
  proof (intro allI impI)
    fix i assume i: "i < length t"
    from assms(1) have len: "length t = length w"
      unfolding upper_def by (rule map_eq_imp_length_eq)
    from assms(1) i len have "upper_char (t ! i) = upper_char (w ! i)"
      unfolding upper_def by (metis nth_map)
    moreover from assms(2) i len have "is_word (w ! i)" by (simp add: list_all_length)
    ultimately show "is_word (t ! i)" by (metis is_word_upper_char)
  qed
  then show ?thesis by (simp add: list_all_length)
qed

lemma mt_word_re:
  assumes "word \<noteq> []" and "list_all is_word word"
  shows "mt True (word_re word) Some \<lparr>prev = p, rest = r, caps = c\<rparr> =
     (if match_here word p r
      then Some \<lparr>prev = Some (r ! (length word - 1)), rest = drop (length word) r, caps = c\<rparr>
      else None)"
proof (cases "length word \<le> length r \<and> upper (take (length word) r) = upper word")
  case False
  then show ?thesis
    by (auto simp: word_re_def mt_Lit match_here_def list_all2_in_chars)
next
  case True
  let ?n = "length word"
  from True assms(2) have tw: "list_all is_word (take ?n r)" by (auto intro: upper_word_chars)
  from assms(1) True have n: "0 < ?n" "?n \<le> length r" by simp_all
  then obtain x xs where r: "r = x # xs" by (cases r) auto
  from tw n have h: "is_word (r ! 0)" and l: "is_word (r ! (?n - 1))"
    by (simp_all add: list_all_length)
  from h r have b0: "at_boundary \<lparr>prev = p, rest = r, caps = c\<rparr> = (\<not> is_word_opt p)"
    by (simp add: at_boundary_def is_word_opt_def)
  from l have b1: "at_boundary \<lparr>prev = Some (r ! (?n - 1)), rest = drop ?n r, caps = c\<rparr>
     = (drop ?n r = [] \<or> \<not> is_word (hd (drop ?n r)))"
    by (cases "drop ?n r") (simp_all add: at_boundary_def is_word_opt_def)
  from True assms(1) b0 b1 show ?thesis
    by (simp add: word_re_def mt_Lit match_here_def list_all2_in_chars)
qed

lemma occs_no_match:
  assumes "\<not> match_here word p (c # cs)"
  shows "filter (occ_in word p (c # cs)) [0..<length (c # cs)]
         = map Suc (filter (occ_in word (Some c) cs) [0..<length cs])"
proof -
  have u: "[0..<length (c # cs)] = 0 # map Suc [0..<length cs]"
    by (simp add: upt_conv_Cons map_Suc_upt del: upt_Suc)
  have z: "\<not> occ_in word p (c # cs) 0" using assms by (simp add: occ_in_def)
  have s: "occ_in word p (c # cs) (Suc s) = occ_in word (Some c) cs s" for s
    by (simp add: occ_in_def nth_Cons')
  show ?thesis
    unfolding u using z by (simp add: filter_map comp_def s)
qed

lemma occs_match:
  assumes m: "match_here word p r" and ne: "word \<noteq> []" and w: "list_all is_word word"
  shows "filter (occ_in word p r) [0..<length r]
         = 0 # map (\<lambda>s. s + length word)
                 (filter (occ_in word (Some (r ! (length word - 1))) (drop (length word) r))
                    [0..<length (drop (length word) r)])"
proof -
  let ?n = "length word"
  from m have le: "?n \<le> length r" and up: "upper (take ?n r) = upper word"
    by (simp_all add: match_here_def)
  from ne have n: "0 < ?n" by simp
  from up w have tw: "list_all is_word (take ?n r)" by (rule upper_word_chars)
  have split: "[0..<length r] = 0 # [1..<?n] @ map (\<lambda>s. s + ?n) [0..<length r - ?n]"
  proof -
    have "[0..<length r] = [0..<?n] @ [?n..<length r]"
      using le by (metis le0 upt_add_eq_append le_add_diff_inverse)
    moreover have "[0..<?n] = 0 # [1..<?n]" using n by (simp add: upt_conv_Cons)
    moreover have "[?n..<length r] = map (\<lambda>s. s + ?n) [0..<length r - ?n]"
      using le by (simp add: map_add_upt)
    ultimately show ?thesis by simp
  qed
  have z: "occ_in word p r 0" using m by (simp add: occ_in_def)
  have mid: "filter (occ_in word p r) [1..<?n] = []"
  proof -
    have "\<not> occ_in word p r s" if "s \<in> set [1..<?n]" for s
    proof -
      from that have s: "0 < s" "s - 1 < ?n" by auto
      with tw le have "is_word (r ! (s - 1))" by (simp add: list_all_length)
      with s show ?thesis by (simp add: occ_in_def match_here_def is_word_opt_def)
    qed
    then show ?thesis by (simp add: filter_empty_conv)
  qed
  have sh: "occ_in word p r (s + ?n)
            = occ_in word (Some (r ! (?n - 1))) (drop ?n r) s" for s
  proof (cases s)
    case 0
    with n show ?thesis by (simp add: occ_in_def)
  next
    case (Suc s')
    with le n show ?thesis by (simp add: occ_in_def add.commute)
  qed
  show ?thesis
    unfolding split using z mid by (simp add: filter_map comp_def sh)
qed

lemma finditer_from_word:
  assumes ne: "word \<noteq> []" and w: "list_all is_word word"
  shows "finditer_from True (word_re word) i p r
         = map (\<lambda>s. (i + s, i + s + length word)) (filter (occ_in word p r) [0..<length r])"
proof (induction r arbitrary: i p rule: length_induct)
  case (1 r)
  show ?case
  proof (cases r)
    case Nil
    then show ?thesis by simp
  next
    case (Cons c cs)
    let ?n = "length word"
    show ?thesis
    proof (cases "match_here word p r")
      case False
      with Cons have nm: "\<not> match_here word p (c # cs)" by simp
      from 1 Cons have ih: "finditer_from True (word_re word) (Suc i) (Some c) cs
         = map (\<lambda>s. (Suc i + s, Suc i + s + ?n)) (filter (occ_in word (Some c) cs) [0..<length cs])"
        by simp
      from nm show ?thesis
        unfolding Cons occs_no_match [OF nm]
        by (simp add: mt_word_re [OF ne w] ih comp_def del: upt_Suc)
    next
      case True
      from True have le: "?n \<le> length r" by (simp add: match_here_def)
      from ne have n: "0 < ?n" by simp
      from le n Cons have shorter: "length (drop ?n r) < length r" by simp
      from 1 shorter have ih: "finditer_from True (word_re word) (i + ?n) (Some (r ! (?n - 1)))
           (drop ?n r)
         = map (\<lambda>s. (i + ?n + s, i + ?n + s + ?n))
             (filter (occ_in word (Some (r ! (?n - 1))) (drop ?n r)) [0..<length (drop ?n r)])"
        by blast
      have step: "finditer_from True (word_re word) i p r
         = (i, i + ?n) # finditer_from True (word_re word) (i + ?n) (Some (r ! (?n - 1)))
                           (drop ?n r)"
        using True le n unfolding Cons
        by (simp add: mt_word_re [OF ne w] del: upt_Suc)
      show ?thesis
        unfolding step ih occs_match [OF True ne w]
        by (simp add: comp_def add.commute add.left_commute del: upt_Suc)
    qed
  qed
qed

lemma occ_in_occurs_at:
  assumes "word \<noteq> []"
  shows "occ_in word None line s = occurs_at word line s"
proof (cases "s + length word \<le> length line")
  case False
  with assms have "\<not> length word \<le> length line - s" by (cases word) auto
  with False show ?thesis by (simp add: occ_in_def match_here_def occurs_at_def)
next
  case True
  with assms have s: "s < length line" by (cases word) auto
  have pre: "(\<not> is_word_opt (if s = 0 then None else Some (line ! (s - 1))))
             = (s = 0 \<or> \<not> is_word (line ! (s - 1)))"
    by (simp add: is_word_opt_def)
  have post: "(drop (length word) (drop s line) = [] \<or> \<not> is_word (hd (drop (length word) (drop s line))))
      = (s + length word = length line \<or> \<not> is_word (line ! (s + length word)))"
  proof (cases "s + length word = length line")
    case True
    then show ?thesis by simp
  next
    case False
    with True have lt: "s + length word < length line" by simp
    then have "hd (drop (s + length word) line) = line ! (s + length word)"
      by (simp add: hd_drop_conv_nth)
    with lt show ?thesis by (simp add: add.commute)
  qed
  from True have le: "length word \<le> length line - s" by arith
  from True le pre post show ?thesis
    unfolding occ_in_def match_here_def occurs_at_def by auto
qed

lemma finditer_word:
  assumes "word \<noteq> []" and "list_all is_word word"
  shows "finditer True (word_re word) line
         = map (\<lambda>s. (s, s + length word)) (filter (occurs_at word line) [0..<length line])"
proof -
  have "occ_in word None line = occurs_at word line"
    using occ_in_occurs_at [OF assms(1)] by blast
  then show ?thesis
    by (simp add: finditer_def finditer_from_word [OF assms])
qed

lemma occurs_at_bound: "word \<noteq> [] \<Longrightarrow> occurs_at word line s \<Longrightarrow> s < length line"
  by (cases word) (auto simp: occurs_at_def)

lemma references_from:
  assumes "word \<noteq> []" and "list_all is_word word"
  shows "set (concat (map (\<lambda>(i, line). map (\<lambda>(s, e). (i, s, e)) (finditer True (word_re word) line))
                  (enumerate k ls)))
           = {(k + i, s, s + length word) | i s. i < length ls \<and> occurs_at word (ls ! i) s}
         \<and> distinct (concat (map (\<lambda>(i, line). map (\<lambda>(s, e). (i, s, e))
                                   (finditer True (word_re word) line)) (enumerate k ls)))"
proof (induction ls arbitrary: k)
  case Nil
  then show ?case by simp
next
  case (Cons l ls)
  let ?f = "\<lambda>(i, line). map (\<lambda>(s, e). (i, s, e)) (finditer True (word_re word) line)"
  let ?n = "length word"
  have hd_set: "set (?f (k, l)) = {(k, s, s + ?n) | s. occurs_at word l s}"
    using occurs_at_bound [OF assms(1)]
    by (auto simp: finditer_word [OF assms] image_iff)
  have hd_dist: "distinct (?f (k, l))"
    by (simp add: finditer_word [OF assms] distinct_map inj_on_def)
  from Cons.IH [of "Suc k"]
  have tl_set: "set (concat (map ?f (enumerate (Suc k) ls)))
           = {(Suc k + i, s, s + ?n) | i s. i < length ls \<and> occurs_at word (ls ! i) s}"
    and tl_dist: "distinct (concat (map ?f (enumerate (Suc k) ls)))"
    by simp_all
  have disj: "set (?f (k, l)) \<inter> set (concat (map ?f (enumerate (Suc k) ls))) = {}"
    unfolding hd_set tl_set by auto
  have set_eq: "{(k, s, s + ?n) | s. occurs_at word l s}
      \<union> {(Suc k + i, s, s + ?n) | i s. i < length ls \<and> occurs_at word (ls ! i) s}
      = {(k + i, s, s + ?n) | i s. i < length (l # ls) \<and> occurs_at word ((l # ls) ! i) s}"
    (is "?A \<union> ?B = ?C")
  proof (intro set_eqI iffI)
    fix x assume "x \<in> ?A \<union> ?B"
    then show "x \<in> ?C"
    proof
      assume "x \<in> ?A"
      then obtain s where "x = (k + 0, s, s + ?n)" "occurs_at word ((l # ls) ! 0) s" by auto
      then show ?thesis by blast
    next
      assume "x \<in> ?B"
      then obtain i s where "x = (k + Suc i, s, s + ?n)" "Suc i < length (l # ls)"
        "occurs_at word ((l # ls) ! Suc i) s" by auto
      then show ?thesis by blast
    qed
  next
    fix x assume "x \<in> ?C"
    then obtain i s where x: "x = (k + i, s, s + ?n)" and i: "i < length (l # ls)"
      and o: "occurs_at word ((l # ls) ! i) s" by auto
    show "x \<in> ?A \<union> ?B"
    proof (cases i)
      case 0
      with x o show ?thesis by simp
    next
      case (Suc j)
      with x i o show ?thesis by auto
    qed
  qed
  show ?case
    using hd_set hd_dist tl_set tl_dist disj set_eq
    by (simp del: split_paired_All)
qed

subsection \<open>The word at the cursor\<close>

lemma word_start_run:
  "word_start l c \<le> c \<and> (\<forall>k. word_start l c \<le> k \<and> k < c \<longrightarrow> is_word (l ! k))"
proof (induction c)
  case 0
  then show ?case by simp
next
  case (Suc n)
  show ?case
  proof (cases "is_word (l ! n)")
    case True
    with Suc show ?thesis by (auto simp: less_Suc_eq)
  next
    case False
    then show ?thesis by auto
  qed
qed

lemma word_end_run:
  "c \<le> word_end l c \<and> (c \<le> length l \<longrightarrow> word_end l c \<le> length l)
   \<and> (\<forall>k. c \<le> k \<and> k < word_end l c \<longrightarrow> is_word (l ! k))"
proof (induction l c rule: word_end.induct)
  case (1 l e)
  show ?case
  proof (cases "e < length l \<and> is_word (l ! e)")
    case True
    with 1 have ih: "Suc e \<le> word_end l (Suc e)" "word_end l (Suc e) \<le> length l"
      "\<forall>k. Suc e \<le> k \<and> k < word_end l (Suc e) \<longrightarrow> is_word (l ! k)"
      by simp_all
    from True have eq: "word_end l e = word_end l (Suc e)" by (subst word_end.simps) simp
    have "is_word (l ! k)" if "e \<le> k \<and> k < word_end l (Suc e)" for k
    proof (cases "k = e")
      case True
      with \<open>e < length l \<and> is_word (l ! e)\<close> show ?thesis by simp
    next
      case False
      with that ih(3) show ?thesis by simp
    qed
    with ih eq show ?thesis by auto
  next
    case False
    then have "word_end l e = e" by (subst word_end.simps) auto
    then show ?thesis by auto
  qed
qed

lemma get_word_chars: "list_all is_word (get_word_at_position text line char)"
proof (cases "length (split_on nl text) \<le> line")
  case True
  then show ?thesis by (simp add: get_word_at_position_def)
next
  case False
  let ?l = "split_on nl text ! line"
  let ?c = "if length ?l < char then length ?l else char"
  let ?a = "word_start ?l ?c"
  let ?b = "word_end ?l ?c"
  have c: "?c \<le> length ?l" by simp
  from word_start_run [of ?l ?c] have a: "?a \<le> ?c"
    and ra: "\<forall>k. ?a \<le> k \<and> k < ?c \<longrightarrow> is_word (?l ! k)" by blast+
  from word_end_run [of ?c ?l] c have b: "?c \<le> ?b" "?b \<le> length ?l"
    and rb: "\<forall>k. ?c \<le> k \<and> k < ?b \<longrightarrow> is_word (?l ! k)" by blast+
  have "\<forall>i < length (drop ?a (take ?b ?l)). is_word (drop ?a (take ?b ?l) ! i)"
  proof (intro allI impI)
    fix i assume "i < length (drop ?a (take ?b ?l))"
    with b have i: "?a + i < ?b" by simp
    with a b have nth: "drop ?a (take ?b ?l) ! i = ?l ! (?a + i)" by simp
    show "is_word (drop ?a (take ?b ?l) ! i)"
    proof (cases "?a + i < ?c")
      case True
      with ra nth show ?thesis by simp
    next
      case False
      with rb i nth show ?thesis by simp
    qed
  qed
  then have "list_all is_word (drop ?a (take ?b ?l))" by (simp add: list_all_length)
  with False show ?thesis by (simp add: get_word_at_position_def Let_def)
qed

text \<open>
  C6. On an ASCII text, for a search word that is not empty and made of alphanumeric
  characters and underscores, the references of the text are the spans
  \<open>(line, start, end)\<close>, 0-based, of the occurrences of the word as a whole word,
  case ignored, each once: an occurrence
  inside a longer identifier is none. The word that \<open>_get_word_at_position\<close> reads at a
  cursor is made of such characters, and \<open>_handle_references\<close> searches for it, or returns
  the empty list when there is no word at the cursor.
\<close>

theorem references_whole_word:
  assumes "ascii_text text"
  shows
  "(word \<noteq> [] \<and> list_all is_word word \<longrightarrow>
      set (references_of text word)
        = {(i, s, s + length word) | i s.
             i < length (split_on nl text) \<and> occurs_at word (split_on nl text ! i) s}
      \<and> distinct (references_of text word))
   \<and> list_all is_word (get_word_at_position text line char)
   \<and> (get_word_at_position text line char = [] \<longrightarrow> handle_references text line char = [])
   \<and> (get_word_at_position text line char \<noteq> [] \<longrightarrow>
        handle_references text line char
        = references_of text (get_word_at_position text line char))"
proof (intro conjI impI)
  assume a: "word \<noteq> [] \<and> list_all is_word word"
  then have ne: "word \<noteq> []" and w: "list_all is_word word" by simp_all
  from references_from [OF ne w, of 0 "split_on nl text"]
  show "set (references_of text word)
        = {(i, s, s + length word) | i s.
             i < length (split_on nl text) \<and> occurs_at word (split_on nl text ! i) s}"
    and "distinct (references_of text word)"
    by (simp_all add: references_of_def)
next
  show "list_all is_word (get_word_at_position text line char)" by (rule get_word_chars)
next
  assume "get_word_at_position text line char = []"
  then show "handle_references text line char = []" by (simp add: handle_references_def)
next
  assume "get_word_at_position text line char \<noteq> []"
  then show "handle_references text line char
        = references_of text (get_word_at_position text line char)"
    by (simp add: handle_references_def)
qed

theorem references_whole_word_witness:
  "(0, 5, 10) \<in> set (references_of ''x := Count + accounting'' ''count'')
   \<and> (0, 15, 20) \<notin> set (references_of ''x := Count + accounting'' ''count'')
   \<and> get_word_at_position ''x := Count + accounting'' 0 7 = ''Count''
   \<and> handle_references ''x := Count + accounting'' 0 7 = [(0, 5, 10)]"
proof -
  let ?t = "''x := Count + accounting''"
  have h: "''count'' \<noteq> [] \<and> list_all is_word ''count''" by (simp add: char_defs)
  have l: "split_on nl ?t = [?t]" by simp
  have o: "occurs_at ''count'' ?t 5" "\<not> occurs_at ''count'' ?t 15"
    by (simp_all add: occurs_at_def upper_def char_defs)
  have g: "get_word_at_position ?t 0 7 = ''Count''" by code_simp
  have e: "references_of ?t ''Count'' = [(0, 5, 10)]" by code_simp
  have a: "ascii_text ?t" by code_simp
  from references_whole_word [of ?t "''count''" 0 7, OF a] h
  have s: "set (references_of ?t ''count'')
        = {(i, s, s + length ''count'') | i s.
             i < length (split_on nl ?t) \<and> occurs_at ''count'' (split_on nl ?t ! i) s}"
    and r: "handle_references ?t 0 7 = references_of ?t (get_word_at_position ?t 0 7)"
    using g by simp_all
  from o(1) l have "(0, 5, 10) \<in> {(i, s, s + length ''count'') | i s.
             i < length (split_on nl ?t) \<and> occurs_at ''count'' (split_on nl ?t ! i) s}"
    by force
  moreover from o(2) l have "(0, 15, 20) \<notin> {(i, s, s + length ''count'') | i s.
             i < length (split_on nl ?t) \<and> occurs_at ''count'' (split_on nl ?t ! i) s}"
    by auto
  ultimately show ?thesis using s r g e by simp
qed

end
